theory Spec2Isabelle
  imports Complex_Main "HOL-Library.AList"
begin

section \<open>The exchange connectivity core of binanceWebSocket.ts\<close>

text \<open>
  A shallow embedding of the class \<open>BinanceWebSocket\<close>
  (src/services/binanceWebSocket.ts). Every method becomes a function that takes the
  object's fields (the record \<open>client\<close>) and returns them updated. A promise is a
  value of \<open>promise\<close>; an \<open>Error\<close> is a value of \<open>js_error\<close>. JavaScript runs a
  method without interruption up to its next \<open>await\<close>, so \<open>Date.now()\<close> is one
  argument \<open>now\<close> of each uninterrupted segment. Times are milliseconds, modelled as
  \<open>int\<close> (JavaScript numbers are exact on integers below \<open>2 ^ 53\<close>).
\<close>

subsection \<open>Strings\<close>

fun startsWith :: "string \<Rightarrow> string \<Rightarrow> bool" where
  "startsWith s [] = True"
| "startsWith [] (p # ps) = False"
| "startsWith (c # cs) (p # ps) = (c = p \<and> startsWith cs ps)"

text \<open>The method \<open>includes\<close> of a string: the pattern occurs at some position.\<close>

fun str_includes :: "string \<Rightarrow> string \<Rightarrow> bool" where
  "str_includes [] p = (p = [])"
| "str_includes (c # cs) p = (startsWith (c # cs) p \<or> str_includes cs p)"

definition lowerChar :: "char \<Rightarrow> char" where
  "lowerChar c =
     (let n = (of_char c :: nat) in if 65 \<le> n \<and> n \<le> 90 then char_of (n + 32) else c)"

text \<open>\<open>toLowerCase\<close> on the ASCII letters (the strings of the model are 8-bit).\<close>

definition toLowerCase :: "string \<Rightarrow> string" where
  "toLowerCase s = map lowerChar s"

definition isDigit :: "char \<Rightarrow> bool" where
  "isDigit c = (let n = (of_char c :: nat) in 48 \<le> n \<and> n \<le> 57)"

definition digitVal :: "char \<Rightarrow> int" where
  "digitVal c = int (of_char c :: nat) - 48"

text \<open>\<open>parseInt(ds, 10)\<close> on a string of decimal digits.\<close>

definition parseInt :: "string \<Rightarrow> int" where
  "parseInt ds = foldl (\<lambda>a c. 10 * a + digitVal c) 0 ds"

fun natToString :: "nat \<Rightarrow> string" where
  "natToString n =
     (if n < 10 then [char_of (48 + n)]
      else natToString (n div 10) @ [char_of (48 + n mod 10)])"

subsection \<open>The ban pattern\<close>

text \<open>
  The regular expression \<open>/IP\(.*\) banned until (\d+)/\<close>, matched as
  \<open>String.prototype.match\<close> does: the leftmost start, \<open>.*\<close> greedy over characters
  that are not line terminators, and the group \<open>(\d+)\<close> taking every digit that
  follows. The result is the text of the group.
\<close>

definition isLineTerminator :: "char \<Rightarrow> bool" where
  "isLineTerminator c = (c = CHR 0x0A \<or> c = CHR 0x0D)"

definition matchBannedUntil :: "string \<Rightarrow> string option" where
  "matchBannedUntil s =
     (if startsWith s '') banned until ''
      then (let ds = takeWhile isDigit (drop 15 s) in if ds = [] then None else Some ds)
      else None)"

fun matchDotStar :: "string \<Rightarrow> string option" where
  "matchDotStar [] = matchBannedUntil []"
| "matchDotStar (c # cs) =
     (if isLineTerminator c then matchBannedUntil (c # cs)
      else (case matchDotStar cs of
              Some ds \<Rightarrow> Some ds
            | None \<Rightarrow> matchBannedUntil (c # cs)))"

definition matchAt :: "string \<Rightarrow> string option" where
  "matchAt s = (if startsWith s ''IP('' then matchDotStar (drop 3 s) else None)"

fun banRegex :: "string \<Rightarrow> string option" where
  "banRegex [] = None"
| "banRegex (c # cs) =
     (case matchAt (c # cs) of Some ds \<Rightarrow> Some ds | None \<Rightarrow> banRegex cs)"

subsection \<open>Data\<close>

datatype js_error = JsError (errName: string) (message: string)

text \<open>\<open>new Error(msg)\<close>.\<close>

definition mkError :: "string \<Rightarrow> js_error" where
  "mkError msg = JsError ''Error'' msg"

datatype json =
    JNull
  | JBool bool
  | JNum int
  | JStr string
  | JArr "json list"
  | JObj "(string \<times> json) list"

text \<open>
  A promise as its caller sees it: settled with a value, settled with an error, or
  \<open>Pending\<close>, which is what a caller holds whose \<open>resolve\<close>/\<open>reject\<close> pair was pushed
  on a waiter list.
\<close>

datatype 'a promise = Resolved 'a | Rejected js_error | Pending

record BanInfo =
  isBanned :: bool
  banUntil :: int

datatype readyState = CONNECTING | OPEN | CLOSING | CLOSED

datatype frame =
    SUBSCRIBE "string list" int
  | UNSUBSCRIBE "string list" int
  | PING

text \<open>The callbacks handed to \<open>setTimeout\<close> by \<open>handleReconnect\<close>.\<close>

datatype timeout_cb =
    ReconnectAfter int
  | CooldownThenReconnect

type_synonym listener = nat

text \<open>
  The fields of the class, in the order of the source, followed by what the methods
  reach outside the object: the entry of \<open>localStorage\<close> under
  \<open>binance-ban-timestamp\<close>, the frames sent on the socket, the REST requests handed to
  \<open>fetch\<close> (method and endpoint), the callbacks pending in \<open>setTimeout\<close>, the
  credentials the AuthService returns, \<open>navigator.onLine\<close>, and the platform's
  \<open>Date.prototype.toLocaleString\<close> and its conversion of a number to a string. A
  timer handle (\<open>pingInterval\<close>, \<open>listenKeyInterval\<close>) is \<open>True\<close> while the
  interval is armed. A waiter on a list of \<open>pendingRequests\<close> is the number of the
  promise it settles; \<open>settled\<close> records the promises settled through a waiter list.
\<close>

record client =
  ws :: "readyState option"
  pingInterval :: bool
  subscribers :: "(string \<times> listener list) list"
  accountSubscribers :: "listener list"
  klineSubscribers :: "(string \<times> listener list) list"
  depthSubscribers :: "(string \<times> listener list) list"
  listenKey :: "string option"
  listenKeyInterval :: bool
  reconnectAttempts :: nat
  isConnecting :: bool
  requestTimestamps :: "int list"
  pendingRequests :: "(string \<times> nat list) list"
  orderHistoryCache :: "(string \<times> (json \<times> int)) list"
  accountInfoCache :: "(json \<times> int) option"
  banInfo :: BanInfo
  lastBanCheckTime :: int
  storedBanInfo :: "BanInfo option"
  sent :: "frame list"
  fetched :: "(string \<times> string) list"
  timeouts :: "timeout_cb list"
  apiCredentials :: "(string \<times> string) option"
  onLine :: bool
  toLocaleString :: "int \<Rightarrow> string"
  numberToString :: "rat \<Rightarrow> string"
  nextPromise :: nat
  settled :: "(nat \<times> json promise) list"

definition MAX_REQUESTS_PER_MINUTE :: nat where
  "MAX_REQUESTS_PER_MINUTE = 600"

definition REQUEST_WINDOW_MS :: int where
  "REQUEST_WINDOW_MS = 60000"

definition RATE_LIMIT_BUFFER :: nat where
  "RATE_LIMIT_BUFFER = 200"

subsection \<open>The ban guard\<close>

definition resetBanInfo :: "client \<Rightarrow> client" where
  "resetBanInfo s =
     (let b = \<lparr>isBanned = False, banUntil = 0\<rparr>
      in s\<lparr>banInfo := b, storedBanInfo := Some b\<rparr>)"

text \<open>
  \<open>checkIfBanned\<close>: the result, and the object after the reset or after the throttled
  warning (\<open>lastBanCheckTime\<close>).
\<close>

definition checkIfBanned :: "int \<Rightarrow> client \<Rightarrow> bool \<times> client" where
  "checkIfBanned now s =
     (if \<not> isBanned (banInfo s) \<or> now > banUntil (banInfo s)
      then (False, if isBanned (banInfo s) then resetBanInfo s else s)
      else (True, if now - lastBanCheckTime s > 60000 then s\<lparr>lastBanCheckTime := now\<rparr> else s))"

definition setBanned :: "int \<Rightarrow> client \<Rightarrow> client" where
  "setBanned banUntilTimestamp s =
     (let b = \<lparr>isBanned = True, banUntil = banUntilTimestamp\<rparr>
      in s\<lparr>banInfo := b, storedBanInfo := Some b\<rparr>)"

definition twelveHoursMs :: int where
  "twelveHoursMs = 12 * 60 * 60 * 1000"

definition detectBanFromError :: "int \<Rightarrow> js_error \<Rightarrow> client \<Rightarrow> bool \<times> client" where
  "detectBanFromError now error s =
     (if message error = [] then (False, s)
      else (case banRegex (message error) of
              Some ds \<Rightarrow> (True, setBanned (parseInt ds) s)
            | None \<Rightarrow>
                if str_includes (message error) ''418''
                   \<or> str_includes (toLowerCase (message error)) ''banned''
                then (True, setBanned (now + twelveHoursMs) s)
                else (False, s)))"

text \<open>
  \<open>getBanStatus\<close>: the object returned (\<open>isBanned\<close>, \<open>banUntil\<close>,
  \<open>remainingMinutes\<close>) and the object after \<open>checkIfBanned\<close>.
\<close>

definition getBanStatus :: "int \<Rightarrow> client \<Rightarrow> (bool \<times> int \<times> int) \<times> client" where
  "getBanStatus now s =
     (let s1 = snd (checkIfBanned now s);
          remainingMs = max 0 (banUntil (banInfo s1) - now)
      in ((isBanned (banInfo s1) \<and> remainingMs > 0,
           banUntil (banInfo s1),
           (remainingMs + 59999) div 60000), s1))"

subsection \<open>The rate limiter\<close>

definition canMakeRequest :: "int \<Rightarrow> client \<Rightarrow> bool \<times> client" where
  "canMakeRequest now s =
     (case checkIfBanned now s of
        (True, s1) \<Rightarrow> (False, s1)
      | (False, s1) \<Rightarrow>
          (let s2 = s1\<lparr>requestTimestamps :=
                       filter (\<lambda>ts. now - ts < REQUEST_WINDOW_MS) (requestTimestamps s1)\<rparr>
           in (length (requestTimestamps s2) < MAX_REQUESTS_PER_MINUTE - RATE_LIMIT_BUFFER, s2)))"

definition banError :: "client \<Rightarrow> js_error" where
  "banError s =
     mkError (''API requests are blocked due to Binance IP ban until ''
              @ toLocaleString s (banUntil (banInfo s)))"

text \<open>\<open>Math.min(...xs)\<close> on a list that is not empty.\<close>

fun minOf :: "int list \<Rightarrow> int" where
  "minOf [] = 0"
| "minOf (x # xs) = fold min xs x"

text \<open>
  The part of \<open>waitForRateLimit\<close> that runs at once: it throws while banned, resolves
  when a slot is free, and otherwise arms the timer of the callback \<open>wait\<close>, which
  keeps \<open>startTime\<close> and \<open>nextSlotTime\<close>.
\<close>

datatype wait_entry = EnterResolved | EnterRejected js_error | EnterWaiting int int

definition waitForRateLimit_enter :: "int \<Rightarrow> client \<Rightarrow> wait_entry \<times> client" where
  "waitForRateLimit_enter now s =
     (case checkIfBanned now s of
        (True, s1) \<Rightarrow> (EnterRejected (banError s1), s1)
      | (False, s1) \<Rightarrow>
          (case canMakeRequest now s1 of
             (True, s2) \<Rightarrow>
               (EnterResolved, s2\<lparr>requestTimestamps := requestTimestamps s2 @ [now]\<rparr>)
           | (False, s2) \<Rightarrow>
               (let oldestRequest =
                      (if length (requestTimestamps s2) > 0 then minOf (requestTimestamps s2)
                       else now - REQUEST_WINDOW_MS)
                in (EnterWaiting now (oldestRequest + REQUEST_WINDOW_MS), s2))))"

definition maxWaitTime :: int where
  "maxWaitTime = 30000"

text \<open>
  \<open>Math.ceil(n * 0.1)\<close>. The product of a count and the double \<open>0.1\<close>, rounded to
  the nearest double, never crosses an integer, so the result is the ceiling of
  \<open>n / 10\<close>.
\<close>

definition removeCount :: "nat \<Rightarrow> nat" where
  "removeCount n = (n + 9) div 10"

definition timeoutError :: "client \<Rightarrow> js_error" where
  "timeoutError s =
     mkError (''Timeout waiting for rate limit window (''
              @ natToString (length (requestTimestamps s)) @ ''/''
              @ natToString MAX_REQUESTS_PER_MINUTE @ '' requests in window)'')"

text \<open>
  One run of the callback \<open>wait\<close> at time \<open>now\<close>: it rejects, resolves, or arms the
  timer again (\<open>WaitAgain\<close>).
\<close>

datatype wait_step = WaitResolved | WaitRejected js_error | WaitAgain

definition wait :: "int \<Rightarrow> int \<Rightarrow> int \<Rightarrow> client \<Rightarrow> wait_step \<times> client" where
  "wait now startTime nextSlotTime s =
     (if now - startTime > maxWaitTime
      then (let s1 =
                  (if length (requestTimestamps s)
                        > MAX_REQUESTS_PER_MINUTE - RATE_LIMIT_BUFFER - 10
                   then s\<lparr>requestTimestamps :=
                            drop (removeCount (length (requestTimestamps s)))
                                 (sort (requestTimestamps s))\<rparr>
                   else s)
            in (WaitRejected (timeoutError s1), s1))
      else (case checkIfBanned now s of
              (True, s1) \<Rightarrow> (WaitRejected (banError s1), s1)
            | (False, s1) \<Rightarrow>
                (case canMakeRequest now s1 of
                   (True, s2) \<Rightarrow>
                     (WaitResolved, s2\<lparr>requestTimestamps := requestTimestamps s2 @ [now]\<rparr>)
                 | (False, s2) \<Rightarrow> (WaitAgain, s2))))"

text \<open>
  The timer runs \<open>wait\<close> at the times of the list; the promise is still pending when
  the list ends before \<open>wait\<close> settles it.
\<close>

fun waitLoop :: "int list \<Rightarrow> int \<Rightarrow> int \<Rightarrow> client \<Rightarrow> unit promise \<times> client" where
  "waitLoop [] startTime nextSlotTime s = (Pending, s)"
| "waitLoop (t # ts) startTime nextSlotTime s =
     (case wait t startTime nextSlotTime s of
        (WaitResolved, s1) \<Rightarrow> (Resolved (), s1)
      | (WaitRejected e, s1) \<Rightarrow> (Rejected e, s1)
      | (WaitAgain, s1) \<Rightarrow> waitLoop ts startTime nextSlotTime s1)"

definition waitForRateLimit :: "int \<Rightarrow> int list \<Rightarrow> client \<Rightarrow> unit promise \<times> client" where
  "waitForRateLimit now fires s =
     (case waitForRateLimit_enter now s of
        (EnterResolved, s1) \<Rightarrow> (Resolved (), s1)
      | (EnterRejected e, s1) \<Rightarrow> (Rejected e, s1)
      | (EnterWaiting startTime nextSlotTime, s1) \<Rightarrow> waitLoop fires startTime nextSlotTime s1)"

subsection \<open>The request executor\<close>

text \<open>
  What \<open>fetch\<close> gives back: a response with \<open>ok\<close> set and the result of
  \<open>response.json()\<close> (\<open>None\<close> when it throws); a response without \<open>ok\<close>, with its
  status, status text, body text and the result of \<open>JSON.parse\<close> on the body (\<open>None\<close>
  when it throws); or a rejection, which is an \<open>AbortError\<close> when the 30 second timer
  aborted the request.
\<close>

datatype fetch_reply =
    FetchOk "json option"
  | FetchNotOk nat string string "json option"
  | FetchThrew js_error

text \<open>
  The clock and the network, as one call of \<open>makeAuthenticatedRequest\<close> meets them:
  the time when the call starts, the times at which the rate limiter's timer runs, the
  time when the outcome of \<open>fetch\<close> is handled, that outcome, and the time when the
  caller runs again after the call has settled.
\<close>

record call_env =
  startedAt :: int
  timerFires :: "int list"
  repliedAt :: int
  reply :: fetch_reply
  resumedAt :: int

datatype begin_result = Throw js_error | Waiter nat | Go

text \<open>
  \<open>makeAuthenticatedRequest\<close> up to \<open>await this.waitForRateLimit()\<close>. A cache key is
  absent (\<open>None\<close>) or a string; the empty string counts as absent, as in
  \<open>if (cacheKey)\<close>.
\<close>

definition mar_begin ::
  "int \<Rightarrow> bool \<Rightarrow> string option \<Rightarrow> bool \<Rightarrow> client \<Rightarrow> begin_result \<times> client" where
  "mar_begin now requiresSignature cacheKey allowDuringBan s =
     (if requiresSignature \<and> apiCredentials s = None
      then (Throw (mkError ''API credentials not found''), s)
      else (case (if allowDuringBan then (False, s) else checkIfBanned now s) of
              (True, s1) \<Rightarrow> (Throw (banError s1), s1)
            | (False, s1) \<Rightarrow>
                (case cacheKey of
                   None \<Rightarrow> (Go, s1)
                 | Some k \<Rightarrow>
                     if k = [] then (Go, s1)
                     else (case map_of (pendingRequests s1) k of
                             Some (w # others) \<Rightarrow>
                               (Waiter (nextPromise s1),
                                s1\<lparr>pendingRequests :=
                                      AList.update k ((w # others) @ [nextPromise s1])
                                        (pendingRequests s1),
                                    nextPromise := Suc (nextPromise s1)\<rparr>)
                           | _ \<Rightarrow>
                               (Go, s1\<lparr>pendingRequests :=
                                          AList.update k [] (pendingRequests s1)\<rparr>)))))"

text \<open>
  \<open>pending.forEach(...)\<close> followed by \<open>this.pendingRequests.delete(cacheKey)\<close>, under
  \<open>if (cacheKey && this.pendingRequests.has(cacheKey))\<close>.
\<close>

definition settleAll :: "string option \<Rightarrow> json promise \<Rightarrow> client \<Rightarrow> client" where
  "settleAll cacheKey outcome s =
     (case cacheKey of
        None \<Rightarrow> s
      | Some k \<Rightarrow>
          if k = [] then s
          else (case map_of (pendingRequests s) k of
                  None \<Rightarrow> s
                | Some pending \<Rightarrow>
                    s\<lparr>settled := settled s @ map (\<lambda>w. (w, outcome)) pending,
                      pendingRequests := AList.delete k (pendingRequests s)\<rparr>))"

definition mar_send :: "string \<Rightarrow> string \<Rightarrow> client \<Rightarrow> client" where
  "mar_send method endpoint s = s\<lparr>fetched := fetched s @ [(method, endpoint)]\<rparr>"

text \<open>The block under \<open>response.status === 418 || response.status === 429\<close>.\<close>

definition scanBanBody :: "int \<Rightarrow> json option \<Rightarrow> client \<Rightarrow> client" where
  "scanBanBody now parsed s =
     (case parsed of
        Some (JObj props) \<Rightarrow>
          if map_of props ''code'' = Some (JNum (- 1003))
          then (case map_of props ''msg'' of
                  Some (JStr m) \<Rightarrow>
                    (case banRegex m of
                       Some ds \<Rightarrow> setBanned (parseInt ds) s
                     | None \<Rightarrow> setBanned (now + twelveHoursMs) s)
                | _ \<Rightarrow> s)
          else s
      | _ \<Rightarrow> s)"

text \<open>The outer \<open>catch\<close> of \<open>makeAuthenticatedRequest\<close>.\<close>

definition mar_failed ::
  "int \<Rightarrow> string \<Rightarrow> string \<Rightarrow> string option \<Rightarrow> js_error \<Rightarrow> client \<Rightarrow> json promise \<times> client" where
  "mar_failed now method endpoint cacheKey error s =
     (let s1 = snd (detectBanFromError now error s);
          enhancedError =
            mkError (''Network error while '' @ method @ '' '' @ endpoint @ '': ''
                     @ message error)
      in (Rejected enhancedError, settleAll cacheKey (Rejected enhancedError) s1))"

definition requestFailed :: "nat \<Rightarrow> string \<Rightarrow> string \<Rightarrow> js_error" where
  "requestFailed status statusText errorText =
     mkError (''Request failed: '' @ natToString status @ '' '' @ statusText @ '' - ''
              @ errorText)"

text \<open>\<open>makeAuthenticatedRequest\<close> from the moment \<open>fetch\<close> settles.\<close>

definition mar_complete ::
  "int \<Rightarrow> string \<Rightarrow> string \<Rightarrow> string option \<Rightarrow> fetch_reply \<Rightarrow> client \<Rightarrow> json promise \<times> client" where
  "mar_complete now method endpoint cacheKey r s =
     (case r of
        FetchOk body \<Rightarrow>
          (let data = (case body of Some d \<Rightarrow> d | None \<Rightarrow> JObj [])
           in (Resolved data, settleAll cacheKey (Resolved data) s))
      | FetchNotOk status statusText errorText parsed \<Rightarrow>
          mar_failed now method endpoint cacheKey (requestFailed status statusText errorText)
            (if status = 418 \<or> status = 429 then scanBanBody now parsed s else s)
      | FetchThrew fetchError \<Rightarrow>
          mar_failed now method endpoint cacheKey
            (if errName fetchError = ''AbortError''
             then mkError ''Request timed out after 30 seconds'' else fetchError) s)"

text \<open>
  One call of \<open>makeAuthenticatedRequest\<close> from start to end. The query string, its
  signature and the headers do not reach the object's fields and are left out; the
  parameter \<open>cacheTTL\<close> is kept, the source never reads it.
\<close>

definition makeAuthenticatedRequest ::
  "call_env \<Rightarrow> string \<Rightarrow> string \<Rightarrow> bool \<Rightarrow> string option \<Rightarrow> int \<Rightarrow> bool \<Rightarrow> client
     \<Rightarrow> json promise \<times> client" where
  "makeAuthenticatedRequest env endpoint method requiresSignature cacheKey cacheTTL
       allowDuringBan s =
     (case mar_begin (startedAt env) requiresSignature cacheKey allowDuringBan s of
        (Throw e, s1) \<Rightarrow> (Rejected e, s1)
      | (Waiter w, s1) \<Rightarrow> (Pending, s1)
      | (Go, s1) \<Rightarrow>
          (case waitForRateLimit (startedAt env) (timerFires env) s1 of
             (Rejected e, s2) \<Rightarrow> (Rejected e, settleAll cacheKey (Rejected e) s2)
           | (Pending, s2) \<Rightarrow> (Pending, s2)
           | (Resolved u, s2) \<Rightarrow>
               mar_complete (repliedAt env) method endpoint cacheKey (reply env)
                 (mar_send method endpoint s2)))"

subsection \<open>The stream session\<close>

definition maxReconnectAttempts :: nat where
  "maxReconnectAttempts = 5"

definition reconnectInterval :: int where
  "reconnectInterval = 10000"

definition isConnected :: "client \<Rightarrow> bool" where
  "isConnected s = (ws s = Some OPEN)"

text \<open>
  \<open>connect\<close>: \<open>new WebSocket(WS_URL)\<close> yields a socket in state \<open>CONNECTING\<close>; its
  handlers run later, as events.
\<close>

definition connect :: "client \<Rightarrow> client" where
  "connect s =
     (if isConnecting s \<or> ws s = Some OPEN then s
      else s\<lparr>isConnecting := True, ws := Some CONNECTING\<rparr>)"

definition handleReconnect :: "client \<Rightarrow> client" where
  "handleReconnect s =
     (if reconnectAttempts s < maxReconnectAttempts
      then s\<lparr>reconnectAttempts := Suc (reconnectAttempts s),
             timeouts := timeouts s
                         @ [ReconnectAfter (reconnectInterval * 2 ^ reconnectAttempts s)]\<rparr>
      else s\<lparr>timeouts := timeouts s @ [CooldownThenReconnect]\<rparr>)"

definition stopPingInterval :: "client \<Rightarrow> client" where
  "stopPingInterval s = (if pingInterval s then s\<lparr>pingInterval := False\<rparr> else s)"

text \<open>The handler \<open>onclose\<close> that \<open>connect\<close> installs on the socket.\<close>

definition onclose :: "client \<Rightarrow> client" where
  "onclose s = handleReconnect ((stopPingInterval s)\<lparr>isConnecting := False\<rparr>)"

text \<open>
  The timer runs the pending callback number \<open>i\<close>: the callback leaves the list and
  its body runs.
\<close>

definition fireTimeout :: "nat \<Rightarrow> client \<Rightarrow> client" where
  "fireTimeout i s =
     (if i < length (timeouts s)
      then (let s1 = s\<lparr>timeouts := take i (timeouts s) @ drop (Suc i) (timeouts s)\<rparr>
            in case timeouts s ! i of
                 ReconnectAfter d \<Rightarrow> connect s1
               | CooldownThenReconnect \<Rightarrow> connect (s1\<lparr>reconnectAttempts := 0\<rparr>))
      else s)"

definition disconnect :: "client \<Rightarrow> client" where
  "disconnect s =
     (let s1 = (if ws s \<noteq> None then s\<lparr>ws := None\<rparr> else s);
          s2 = stopPingInterval s1
      in if listenKeyInterval s2 then s2\<lparr>listenKeyInterval := False\<rparr> else s2)"

definition sendSubscription :: "string list \<Rightarrow> int \<Rightarrow> client \<Rightarrow> client" where
  "sendSubscription params now s =
     (if ws s \<noteq> Some OPEN then s else s\<lparr>sent := sent s @ [SUBSCRIBE params now]\<rparr>)"

definition sendUnsubscription :: "string list \<Rightarrow> int \<Rightarrow> client \<Rightarrow> client" where
  "sendUnsubscription params now s =
     (if ws s \<noteq> Some OPEN then s else s\<lparr>sent := sent s @ [UNSUBSCRIBE params now]\<rparr>)"

definition tickerStream :: "string \<Rightarrow> string" where
  "tickerStream symbol = toLowerCase symbol @ ''@ticker''"

text \<open>\<open>Set.prototype.add\<close> and \<open>Set.prototype.delete\<close> on a set kept in insertion order.\<close>

definition setAdd :: "listener \<Rightarrow> listener list \<Rightarrow> listener list" where
  "setAdd l ls = (if l \<in> set ls then ls else ls @ [l])"

definition setDelete :: "listener \<Rightarrow> listener list \<Rightarrow> listener list" where
  "setDelete l ls = removeAll l ls"

definition subscribe :: "string \<Rightarrow> listener \<Rightarrow> int \<Rightarrow> client \<Rightarrow> client" where
  "subscribe symbol callback now s =
     (let s1 = (if ws s \<noteq> Some OPEN then connect s else s);
          s2 = (if map_of (subscribers s1) symbol = None
                then (let s3 = s1\<lparr>subscribers := AList.update symbol [] (subscribers s1)\<rparr>
                      in if ws s3 = Some OPEN
                         then sendSubscription [tickerStream symbol] now s3 else s3)
                else s1)
      in case map_of (subscribers s2) symbol of
           None \<Rightarrow> s2
         | Some ls \<Rightarrow>
             s2\<lparr>subscribers := AList.update symbol (setAdd callback ls) (subscribers s2)\<rparr>)"

definition unsubscribe :: "string \<Rightarrow> listener \<Rightarrow> int \<Rightarrow> client \<Rightarrow> client" where
  "unsubscribe symbol callback now s =
     (case map_of (subscribers s) symbol of
        None \<Rightarrow> s
      | Some ls \<Rightarrow>
          (let ls1 = setDelete callback ls
           in if length ls1 = 0
              then (let s1 = s\<lparr>subscribers := AList.delete symbol (subscribers s)\<rparr>
                    in if ws s1 = Some OPEN
                       then sendUnsubscription [tickerStream symbol] now s1 else s1)
              else s\<lparr>subscribers := AList.update symbol ls1 (subscribers s)\<rparr>))"

definition klineKey :: "string \<Rightarrow> string \<Rightarrow> string" where
  "klineKey symbol interval = symbol @ ''_'' @ interval"

definition klineStream :: "string \<Rightarrow> string \<Rightarrow> string" where
  "klineStream symbol interval = toLowerCase symbol @ ''@kline_'' @ interval"

definition subscribeKlines :: "string \<Rightarrow> string \<Rightarrow> listener \<Rightarrow> int \<Rightarrow> client \<Rightarrow> client" where
  "subscribeKlines symbol interval callback now s =
     (let s1 = (if ws s \<noteq> Some OPEN then connect s else s);
          key = klineKey symbol interval;
          s2 = (if map_of (klineSubscribers s1) key = None
                then (let s3 = s1\<lparr>klineSubscribers :=
                                    AList.update key [] (klineSubscribers s1)\<rparr>
                      in if ws s3 = Some OPEN
                         then sendSubscription [klineStream symbol interval] now s3 else s3)
                else s1)
      in case map_of (klineSubscribers s2) key of
           None \<Rightarrow> s2
         | Some ls \<Rightarrow>
             s2\<lparr>klineSubscribers :=
                  AList.update key (setAdd callback ls) (klineSubscribers s2)\<rparr>)"

definition unsubscribeKlines :: "string \<Rightarrow> string \<Rightarrow> listener \<Rightarrow> int \<Rightarrow> client \<Rightarrow> client" where
  "unsubscribeKlines symbol interval callback now s =
     (let key = klineKey symbol interval
      in case map_of (klineSubscribers s) key of
           None \<Rightarrow> s
         | Some ls \<Rightarrow>
             (let ls1 = setDelete callback ls
              in if length ls1 = 0
                 then (let s1 = s\<lparr>klineSubscribers := AList.delete key (klineSubscribers s)\<rparr>
                       in if ws s1 = Some OPEN
                          then sendUnsubscription [klineStream symbol interval] now s1 else s1)
                 else s\<lparr>klineSubscribers := AList.update key ls1 (klineSubscribers s)\<rparr>))"

definition depthStream :: "string \<Rightarrow> string" where
  "depthStream symbol = toLowerCase symbol @ ''@depth20@100ms''"

definition subscribeDepth :: "string \<Rightarrow> listener \<Rightarrow> int \<Rightarrow> client \<Rightarrow> client" where
  "subscribeDepth symbol callback now s =
     (let s1 = (if ws s \<noteq> Some OPEN then connect s else s);
          s2 = (if map_of (depthSubscribers s1) symbol = None
                then (let s3 = s1\<lparr>depthSubscribers :=
                                    AList.update symbol [] (depthSubscribers s1)\<rparr>
                      in if ws s3 = Some OPEN
                         then sendSubscription [depthStream symbol] now s3 else s3)
                else s1)
      in case map_of (depthSubscribers s2) symbol of
           None \<Rightarrow> s2
         | Some ls \<Rightarrow>
             s2\<lparr>depthSubscribers :=
                  AList.update symbol (setAdd callback ls) (depthSubscribers s2)\<rparr>)"

definition unsubscribeDepth :: "string \<Rightarrow> listener \<Rightarrow> int \<Rightarrow> client \<Rightarrow> client" where
  "unsubscribeDepth symbol callback now s =
     (case map_of (depthSubscribers s) symbol of
        None \<Rightarrow> s
      | Some ls \<Rightarrow>
          (let ls1 = setDelete callback ls
           in if length ls1 = 0
              then (let s1 = s\<lparr>depthSubscribers := AList.delete symbol (depthSubscribers s)\<rparr>
                    in if ws s1 = Some OPEN
                       then sendUnsubscription [depthStream symbol] now s1 else s1)
              else s\<lparr>depthSubscribers := AList.update symbol ls1 (depthSubscribers s)\<rparr>))"

text \<open>
  The account stream has one set of listeners and is named on the wire by the listen
  key; a listen key that is the empty string counts as absent, as in
  \<open>if (this.listenKey)\<close>.
\<close>

definition truthyKey :: "string option \<Rightarrow> bool" where
  "truthyKey k = (case k of None \<Rightarrow> False | Some str \<Rightarrow> str \<noteq> [])"

definition subscribeAccount :: "listener \<Rightarrow> int \<Rightarrow> client \<Rightarrow> client" where
  "subscribeAccount callback now s =
     (let s1 = s\<lparr>accountSubscribers := setAdd callback (accountSubscribers s)\<rparr>
      in if ws s1 \<noteq> Some OPEN then connect s1
         else if truthyKey (listenKey s1) then sendSubscription [the (listenKey s1)] now s1
         else s1)"

definition unsubscribeAccount :: "listener \<Rightarrow> int \<Rightarrow> client \<Rightarrow> client" where
  "unsubscribeAccount callback now s =
     (let s1 = s\<lparr>accountSubscribers := setDelete callback (accountSubscribers s)\<rparr>
      in if length (accountSubscribers s1) = 0 \<and> truthyKey (listenKey s1) \<and> ws s1 = Some OPEN
         then sendUnsubscription [the (listenKey s1)] now s1
         else s1)"

subsection \<open>The listen key\<close>

definition startListenKeyRefresh :: "client \<Rightarrow> client" where
  "startListenKeyRefresh s = s\<lparr>listenKeyInterval := True\<rparr>"

text \<open>
  The property \<open>listenKey\<close> of the response, when it is a string (anything else is
  taken as absent).
\<close>

definition listenKeyOf :: "json \<Rightarrow> string option" where
  "listenKeyOf data =
     (case data of
        JObj props \<Rightarrow> (case map_of props ''listenKey'' of Some (JStr k) \<Rightarrow> Some k | _ \<Rightarrow> None)
      | _ \<Rightarrow> None)"

definition getListenKey :: "call_env \<Rightarrow> client \<Rightarrow> string option promise \<times> client" where
  "getListenKey env s =
     (case checkIfBanned (startedAt env) s of
        (True, s1) \<Rightarrow> (Resolved None, s1)
      | (False, s1) \<Rightarrow>
          (case listenKey s1 of
             Some k \<Rightarrow> (Resolved (Some k), s1)
           | None \<Rightarrow>
               (case makeAuthenticatedRequest env ''/fapi/v1/listenKey'' ''POST'' False
                       (Some ''listenKey'') 30000 True s1 of
                  (Resolved data, s2) \<Rightarrow>
                    (Resolved (listenKeyOf data),
                     startListenKeyRefresh (s2\<lparr>listenKey := listenKeyOf data\<rparr>))
                | (Rejected error, s2) \<Rightarrow>
                    (Resolved None, snd (detectBanFromError (resumedAt env) error s2))
                | (Pending, s2) \<Rightarrow> (Pending, s2))))"

text \<open>
  The callback of the interval armed by \<open>startListenKeyRefresh\<close>, and the interval
  itself: the platform runs the callback only while the interval is armed.
\<close>

definition refreshListenKey :: "call_env \<Rightarrow> call_env \<Rightarrow> client \<Rightarrow> client" where
  "refreshListenKey env env2 s =
     (case listenKey s of
        None \<Rightarrow> s
      | Some k \<Rightarrow>
          (case makeAuthenticatedRequest env ''/fapi/v1/listenKey'' ''PUT'' False
                  (Some ''refreshListenKey'') 30000 False s of
             (Rejected error, s1) \<Rightarrow> snd (getListenKey env2 (s1\<lparr>listenKey := None\<rparr>))
           | (other, s1) \<Rightarrow> s1))"

definition listenKeyIntervalFires :: "call_env \<Rightarrow> call_env \<Rightarrow> client \<Rightarrow> client" where
  "listenKeyIntervalFires env env2 s =
     (if listenKeyInterval s then refreshListenKey env env2 s else s)"

subsection \<open>Orders\<close>

datatype order_side = BUY | SELL

datatype order_type = MARKET | LIMIT

definition sideName :: "order_side \<Rightarrow> string" where
  "sideName sd = (case sd of BUY \<Rightarrow> ''BUY'' | SELL \<Rightarrow> ''SELL'')"

definition typeName :: "order_type \<Rightarrow> string" where
  "typeName ty = (case ty of MARKET \<Rightarrow> ''MARKET'' | LIMIT \<Rightarrow> ''LIMIT'')"

text \<open>A number that is absent, zero or (for \<open>!price\<close>) undefined is falsy.\<close>

definition falsyNumber :: "rat option \<Rightarrow> bool" where
  "falsyNumber x = (case x of None \<Rightarrow> True | Some v \<Rightarrow> v = 0)"

text \<open>
  The four markers by which the retry loop of \<open>placeOrder\<close> recognises an error that
  it must not retry.
\<close>

definition nonTransient :: "string \<Rightarrow> bool" where
  "nonTransient errorMsg =
     (str_includes errorMsg ''Invalid API-key''
      \<or> str_includes errorMsg ''Signature''
      \<or> str_includes errorMsg ''Parameter''
      \<or> str_includes errorMsg ''banned'')"

definition maxAttempts :: nat where
  "maxAttempts = 3"

definition orderCacheKey ::
  "client \<Rightarrow> string \<Rightarrow> order_side \<Rightarrow> order_type \<Rightarrow> rat \<Rightarrow> rat option \<Rightarrow> string" where
  "orderCacheKey s symbol sd ty quantity price =
     ''order_'' @ symbol @ ''_'' @ sideName sd @ ''_'' @ typeName ty @ ''_''
     @ numberToString s quantity @ ''_''
     @ (if falsyNumber price then [] else numberToString s (the price))"

text \<open>
  The retry loop of \<open>placeOrder\<close>. Each attempt is one call of
  \<open>makeAuthenticatedRequest\<close> and meets the next environment of the list; the order is
  still pending when the list ends first. \<open>toTrade\<close> is the translation of the
  response into a \<open>Trade\<close>, which parses floating point fields and throws on a date
  that is not valid.
\<close>

definition giveUp :: "nat \<Rightarrow> js_error \<Rightarrow> bool" where
  "giveUp attempts error = (Suc attempts \<ge> maxAttempts \<or> nonTransient (message error))"

definition exhausted :: js_error where
  "exhausted =
     mkError (''Failed to place order after '' @ natToString maxAttempts @ '' attempts'')"

fun orderAttempts ::
  "(json \<Rightarrow> js_error + json) \<Rightarrow> call_env list \<Rightarrow> nat \<Rightarrow> string \<Rightarrow> client
     \<Rightarrow> json promise \<times> client" where
  "orderAttempts toTrade [] attempts key s =
     (if attempts < maxAttempts then (Pending, s) else (Rejected exhausted, s))"
| "orderAttempts toTrade (env # envs) attempts key s =
     (if attempts < maxAttempts
      then (case makeAuthenticatedRequest env ''/fapi/v1/order'' ''POST'' True (Some key)
                   30000 False s of
              (Pending, s1) \<Rightarrow> (Pending, s1)
            | (Resolved data, s1) \<Rightarrow>
                (case toTrade data of
                   Inr trade \<Rightarrow> (Resolved trade, s1)
                 | Inl error \<Rightarrow>
                     if giveUp attempts error then (Rejected error, s1)
                     else orderAttempts toTrade envs (Suc attempts) key s1)
            | (Rejected error, s1) \<Rightarrow>
                if giveUp attempts error then (Rejected error, s1)
                else orderAttempts toTrade envs (Suc attempts) key s1)
      else (Rejected exhausted, s))"

definition setLeverage :: "call_env \<Rightarrow> string \<Rightarrow> rat \<Rightarrow> client \<Rightarrow> json promise \<times> client" where
  "setLeverage env symbol leverage s =
     makeAuthenticatedRequest env ''/fapi/v1/leverage'' ''POST'' True
       (Some (''leverage_'' @ symbol @ ''_'' @ numberToString s leverage)) 30000 False s"

text \<open>The message the outer \<open>catch\<close> of \<open>placeOrder\<close> puts into the error it throws.\<close>

definition userMessage :: "js_error \<Rightarrow> string" where
  "userMessage error =
     (if str_includes (message error) ''Failed to fetch''
      then ''Network error: Could not connect to Binance API. Please check your internet connection.''
      else if str_includes (message error) ''banned''
      then ''Your IP is currently banned by Binance. Please try again later.''
      else if str_includes (message error) ''Invalid API-key''
      then ''Invalid API credentials. Please check your API key and secret.''
      else if str_includes (message error) ''Signature''
      then ''Authentication error. Please check your API credentials.''
      else if str_includes (message error) ''Parameter''
      then ''Invalid order parameters. Please check your order details.''
      else ''Error: '' @ message error)"

definition rethrow :: "json promise \<times> client \<Rightarrow> json promise \<times> client" where
  "rethrow r =
     (case r of
        (Rejected error, s) \<Rightarrow> (Rejected (mkError (userMessage error)), s)
      | other \<Rightarrow> other)"

text \<open>
  The step of \<open>placeOrder\<close> that sets the leverage when one is given. A failure of
  \<open>setLeverage\<close> is logged and the order goes on; the result is the environments
  left for the order and the object, or no environments when \<open>setLeverage\<close> has not
  settled.
\<close>

definition prepareLeverage ::
  "call_env list \<Rightarrow> string \<Rightarrow> rat option \<Rightarrow> client \<Rightarrow> call_env list option \<times> client" where
  "prepareLeverage envs symbol leverage s =
     (if falsyNumber leverage then (Some envs, s)
      else (case envs of
              [] \<Rightarrow> (None, s)
            | env # envs1 \<Rightarrow>
                (case setLeverage env symbol (the leverage) s of
                   (Pending, s1) \<Rightarrow> (None, s1)
                 | (other, s1) \<Rightarrow> (Some envs1, s1))))"

text \<open>
  \<open>placeOrder\<close>. The environments are met in order by the calls of
  \<open>makeAuthenticatedRequest\<close>: the one of \<open>setLeverage\<close> first when a leverage is
  given, then one for each attempt of the order.
\<close>

definition placeOrder ::
  "(json \<Rightarrow> js_error + json) \<Rightarrow> call_env list \<Rightarrow> string \<Rightarrow> order_side \<Rightarrow> order_type \<Rightarrow> rat
     \<Rightarrow> rat option \<Rightarrow> rat option \<Rightarrow> client \<Rightarrow> json promise \<times> client" where
  "placeOrder toTrade envs symbol sd ty quantity price leverage s =
     rethrow
       (if \<not> onLine s then (Rejected (mkError ''No internet connection available''), s)
        else (let s1 = (if \<not> isConnected s then connect s else s)
              in if symbol = [] \<or> quantity = 0 \<or> quantity \<le> 0
                 then (Rejected (mkError ''Invalid order parameters''), s1)
                 else if ty = LIMIT \<and> (falsyNumber price \<or> the price \<le> 0)
                 then (Rejected (mkError ''Price is required for LIMIT orders''), s1)
                 else (case prepareLeverage envs symbol leverage s1 of
                         (None, s2) \<Rightarrow> (Pending, s2)
                       | (Some envs1, s2) \<Rightarrow>
                           orderAttempts toTrade envs1 0
                             (orderCacheKey s2 symbol sd ty quantity price) s2)))"

subsection \<open>Account information, positions and order history\<close>

text \<open>The values of JSON that JavaScript takes as false.\<close>

definition truthy :: "json \<Rightarrow> bool" where
  "truthy j =
     (case j of
        JNull \<Rightarrow> False
      | JBool b \<Rightarrow> b
      | JNum n \<Rightarrow> n \<noteq> 0
      | JStr str \<Rightarrow> str \<noteq> []
      | JArr xs \<Rightarrow> True
      | JObj props \<Rightarrow> True)"

definition errToString :: "js_error \<Rightarrow> string" where
  "errToString error =
     (if message error = [] then errName error else errName error @ '': '' @ message error)"

definition mockAccountInfo :: "int \<Rightarrow> json" where
  "mockAccountInfo now =
     JObj [(''positions'', JArr []), (''assets'', JArr []), (''canTrade'', JBool False),
           (''canDeposit'', JBool False), (''canWithdraw'', JBool False),
           (''updateTime'', JNum now), (''totalWalletBalance'', JStr ''0.00000000'')]"

text \<open>
  The check for a request in progress that \<open>getAccountInfo\<close> and
  \<open>getOpenPositions\<close> make on their own key: the caller becomes a waiter, or the key
  is set to the empty list.
\<close>

definition joinOrMark :: "string \<Rightarrow> client \<Rightarrow> bool \<times> client" where
  "joinOrMark k s =
     (case map_of (pendingRequests s) k of
        Some (w # others) \<Rightarrow>
          (True, s\<lparr>pendingRequests :=
                     AList.update k ((w # others) @ [nextPromise s]) (pendingRequests s),
                   nextPromise := Suc (nextPromise s)\<rparr>)
      | _ \<Rightarrow> (False, s\<lparr>pendingRequests := AList.update k [] (pendingRequests s)\<rparr>))"

text \<open>The \<open>catch\<close> of \<open>getAccountInfo\<close>.\<close>

definition accountInfoFailed :: "int \<Rightarrow> js_error \<Rightarrow> client \<Rightarrow> json promise \<times> client" where
  "accountInfoFailed now error s =
     (case checkIfBanned now (snd (detectBanFromError now error s)) of
        (banned, s1) \<Rightarrow>
          (case accountInfoCache s1 of
             Some (data, timestamp) \<Rightarrow>
               if banned \<or> str_includes (errToString error) ''rate limit''
               then (Resolved data, s1)
               else (Rejected error, s1)
           | None \<Rightarrow> (Rejected error, s1)))"

text \<open>The \<open>try\<close> block of \<open>getAccountInfo\<close>; \<open>now\<close> is the time read on entry.\<close>

definition fetchAccountInfo :: "call_env \<Rightarrow> int \<Rightarrow> client \<Rightarrow> json promise \<times> client" where
  "fetchAccountInfo env now s =
     (case joinOrMark ''account_info'' s of
        (True, s1) \<Rightarrow> (Pending, s1)
      | (False, s1) \<Rightarrow>
          (case makeAuthenticatedRequest env ''/fapi/v2/account'' ''GET'' True
                  (Some ''account_info'') 60000 False s1 of
             (Resolved data, s2) \<Rightarrow>
               (Resolved data,
                if truthy data then s2\<lparr>accountInfoCache := Some (data, now)\<rparr> else s2)
           | (Pending, s2) \<Rightarrow> (Pending, s2)
           | (Rejected error, s2) \<Rightarrow> accountInfoFailed (resumedAt env) error s2))"

definition getAccountInfo :: "call_env \<Rightarrow> client \<Rightarrow> json promise \<times> client" where
  "getAccountInfo env s =
     (let now = startedAt env
      in case (case accountInfoCache s of
                 Some (data, timestamp) \<Rightarrow> if now - timestamp < 60000 then Some data else None
               | None \<Rightarrow> None) of
           Some data \<Rightarrow> (Resolved data, s)
         | None \<Rightarrow>
             (case checkIfBanned now s of
                (True, s1) \<Rightarrow>
                  (case accountInfoCache s1 of
                     Some (data, timestamp) \<Rightarrow> (Resolved data, s1)
                   | None \<Rightarrow> (Resolved (mockAccountInfo now), s1))
              | (False, s1) \<Rightarrow> fetchAccountInfo env now s1))"

text \<open>
  \<open>getAccountInfo().catch(...)\<close> inside \<open>getOpenPositions\<close>: one more call after an
  error whose text has \<open>rate limit\<close> in it. The result comes with the time at which
  \<open>getOpenPositions\<close> runs again.
\<close>

definition accountInfoWithRetry ::
  "call_env \<Rightarrow> call_env \<Rightarrow> client \<Rightarrow> (json promise \<times> client) \<times> int" where
  "accountInfoWithRetry env env2 s =
     (case getAccountInfo env s of
        (Rejected error, s1) \<Rightarrow>
          if str_includes (errToString error) ''rate limit''
          then (getAccountInfo env2 s1, resumedAt env2)
          else ((Rejected error, s1), resumedAt env)
      | other \<Rightarrow> (other, resumedAt env))"

definition positionsOf :: "json \<Rightarrow> json option" where
  "positionsOf accountInfo =
     (case accountInfo of
        JObj props \<Rightarrow>
          (case map_of props ''positions'' of
             Some p \<Rightarrow> if truthy p then Some p else None
           | None \<Rightarrow> None)
      | _ \<Rightarrow> None)"

text \<open>The \<open>catch\<close> of \<open>getOpenPositions\<close>.\<close>

definition positionsFailed :: "int \<Rightarrow> js_error \<Rightarrow> client \<Rightarrow> json promise \<times> client" where
  "positionsFailed now error s =
     (Resolved (JArr []),
      settleAll (Some ''open_positions'') (Rejected error)
        (snd (detectBanFromError now error s)))"

text \<open>
  \<open>getOpenPositions\<close>. \<open>toPositions\<close> is the \<open>filter\<close> and \<open>map\<close> over
  \<open>accountInfo.positions\<close>, which parses floating point fields and throws when the
  value is no array.
\<close>

definition getOpenPositions ::
  "(json \<Rightarrow> js_error + json) \<Rightarrow> call_env \<Rightarrow> call_env \<Rightarrow> client \<Rightarrow> json promise \<times> client" where
  "getOpenPositions toPositions env env2 s =
     (case joinOrMark ''open_positions'' s of
        (True, s1) \<Rightarrow> (Pending, s1)
      | (False, s1) \<Rightarrow>
          (case accountInfoWithRetry env env2 s1 of
             ((Pending, s2), now) \<Rightarrow> (Pending, s2)
           | ((Rejected error, s2), now) \<Rightarrow> positionsFailed now error s2
           | ((Resolved accountInfo, s2), now) \<Rightarrow>
               (case positionsOf accountInfo of
                  None \<Rightarrow> (Resolved (JArr []), s2)
                | Some p \<Rightarrow>
                    (case toPositions p of
                       Inl error \<Rightarrow> positionsFailed now error s2
                     | Inr positions \<Rightarrow>
                         (Resolved positions,
                          settleAll (Some ''open_positions'') (Resolved positions) s2)))))"

text \<open>
  \<open>getOrderHistory\<close>. \<open>toTrades\<close> is the \<open>map\<close> over the orders of the response,
  which throws when the response is no array.
\<close>

definition symbolOrAll :: "string option \<Rightarrow> string" where
  "symbolOrAll symbol =
     (case symbol of None \<Rightarrow> ''all'' | Some name \<Rightarrow> if name = [] then ''all'' else name)"

text \<open>The \<open>catch\<close> of \<open>getOrderHistory\<close>.\<close>

definition historyFailed ::
  "int \<Rightarrow> js_error \<Rightarrow> (json \<times> int) option \<Rightarrow> client \<Rightarrow> json promise \<times> client" where
  "historyFailed now error cachedEntry s =
     (let s1 = snd (detectBanFromError now error s)
      in case cachedEntry of
           Some (data, timestamp) \<Rightarrow> (Resolved data, s1)
         | None \<Rightarrow> (Rejected error, s1))"

definition getOrderHistory ::
  "(json \<Rightarrow> js_error + json) \<Rightarrow> call_env \<Rightarrow> string option \<Rightarrow> client \<Rightarrow> json promise \<times> client" where
  "getOrderHistory toTrades env symbol s =
     (let cacheKey = ''orderHistory_'' @ symbolOrAll symbol;
          now = startedAt env;
          cachedEntry = map_of (orderHistoryCache s) cacheKey
      in case (case cachedEntry of
                 Some (data, timestamp) \<Rightarrow> if now - timestamp < 60000 then Some data else None
               | None \<Rightarrow> None) of
           Some data \<Rightarrow> (Resolved data, s)
         | None \<Rightarrow>
             (case checkIfBanned now s of
                (True, s1) \<Rightarrow>
                  (case cachedEntry of
                     Some (data, timestamp) \<Rightarrow> (Resolved data, s1)
                   | None \<Rightarrow> (Resolved (JArr []), s1))
              | (False, s1) \<Rightarrow>
                  (case makeAuthenticatedRequest env ''/fapi/v1/allOrders'' ''GET'' True
                          (Some (''orders_'' @ symbolOrAll symbol)) 60000 False s1 of
                     (Pending, s2) \<Rightarrow> (Pending, s2)
                   | (Rejected error, s2) \<Rightarrow>
                       historyFailed (resumedAt env) error cachedEntry s2
                   | (Resolved orders, s2) \<Rightarrow>
                       (case toTrades orders of
                          Inl error \<Rightarrow> historyFailed (resumedAt env) error cachedEntry s2
                        | Inr trades \<Rightarrow>
                            (Resolved trades,
                             s2\<lparr>orderHistoryCache :=
                                  AList.update cacheKey (trades, now)
                                    (orderHistoryCache s2)\<rparr>)))))"

subsection \<open>A client to start from\<close>

text \<open>
  The object after its constructor found no ban record in \<open>localStorage\<close>, on a
  platform that is online; the two conversions to text are stand-ins.
\<close>

definition newClient :: "(string \<times> string) option \<Rightarrow> client" where
  "newClient credentials =
     \<lparr>ws = None, pingInterval = False, subscribers = [], accountSubscribers = [],
      klineSubscribers = [], depthSubscribers = [], listenKey = None,
      listenKeyInterval = False, reconnectAttempts = 0, isConnecting = False,
      requestTimestamps = [], pendingRequests = [], orderHistoryCache = [],
      accountInfoCache = None, banInfo = \<lparr>isBanned = False, banUntil = 0\<rparr>,
      lastBanCheckTime = 0, storedBanInfo = None, sent = [], fetched = [], timeouts = [],
      apiCredentials = credentials, onLine = True,
      toLocaleString = (\<lambda>t. ''a date''), numberToString = (\<lambda>x. ''a number''),
      nextPromise = 0, settled = []\<rparr>"

subsection \<open>The waiter lists\<close>

text \<open>Every list of \<open>pendingRequests\<close> is empty: no caller waits on another call.\<close>

definition noWaiters :: "client \<Rightarrow> bool" where
  "noWaiters s = list_all (\<lambda>(k, waiters). waiters = []) (pendingRequests s)"

subsection \<open>Sequences of calls\<close>

text \<open>
  What can happen to the object between two moments: a call of a method that runs to
  its end, an event of the socket or of a timer, or one uninterrupted part of a call
  (the start of a request, its wait for the rate limiter, the hand-over to \<open>fetch\<close>,
  the handling of the response, the \<open>catch\<close> of a caller), so that calls may overlap.
\<close>

datatype action =
    BeginRequest int bool "string option" bool
  | AwaitRateLimit int "int list"
  | SendRequest string string
  | CompleteRequest int string string "string option" fetch_reply
  | RejectWaiters "string option" js_error
  | JoinOrMark string
  | AccountInfoFails int js_error
  | PositionsFail int js_error
  | HistoryFails int js_error "(json \<times> int) option"
  | Request call_env string string bool "string option" int bool
  | GetAccountInfo call_env
  | GetOpenPositions "json \<Rightarrow> js_error + json" call_env call_env
  | GetOrderHistory "json \<Rightarrow> js_error + json" call_env "string option"
  | PlaceOrder "json \<Rightarrow> js_error + json" "call_env list" string order_side order_type rat
      "rat option" "rat option"
  | GetListenKey call_env
  | ListenKeyTick call_env call_env
  | Subscribe string listener int
  | Unsubscribe string listener int
  | SubscribeKlines string string listener int
  | UnsubscribeKlines string string listener int
  | SubscribeDepth string listener int
  | UnsubscribeDepth string listener int
  | SubscribeAccount listener int
  | UnsubscribeAccount listener int
  | Connect
  | Disconnect
  | SocketCloses
  | TimeoutFires nat
  | GetBanStatus int

fun perform :: "action \<Rightarrow> client \<Rightarrow> client" where
  "perform (BeginRequest now rs key adb) s = snd (mar_begin now rs key adb s)"
| "perform (AwaitRateLimit now fires) s = snd (waitForRateLimit now fires s)"
| "perform (SendRequest verb endpoint) s = mar_send verb endpoint s"
| "perform (CompleteRequest now verb endpoint key r) s =
     snd (mar_complete now verb endpoint key r s)"
| "perform (RejectWaiters key error) s = settleAll key (Rejected error) s"
| "perform (JoinOrMark k) s = snd (joinOrMark k s)"
| "perform (AccountInfoFails now error) s = snd (accountInfoFailed now error s)"
| "perform (PositionsFail now error) s = snd (positionsFailed now error s)"
| "perform (HistoryFails now error cachedEntry) s = snd (historyFailed now error cachedEntry s)"
| "perform (Request env endpoint verb rs key ttl adb) s =
     snd (makeAuthenticatedRequest env endpoint verb rs key ttl adb s)"
| "perform (GetAccountInfo env) s = snd (getAccountInfo env s)"
| "perform (GetOpenPositions toPositions env env2) s =
     snd (getOpenPositions toPositions env env2 s)"
| "perform (GetOrderHistory toTrades env symbol) s = snd (getOrderHistory toTrades env symbol s)"
| "perform (PlaceOrder toTrade envs symbol sd ty quantity price leverage) s =
     snd (placeOrder toTrade envs symbol sd ty quantity price leverage s)"
| "perform (GetListenKey env) s = snd (getListenKey env s)"
| "perform (ListenKeyTick env env2) s = listenKeyIntervalFires env env2 s"
| "perform (Subscribe symbol l now) s = subscribe symbol l now s"
| "perform (Unsubscribe symbol l now) s = unsubscribe symbol l now s"
| "perform (SubscribeKlines symbol interval l now) s = subscribeKlines symbol interval l now s"
| "perform (UnsubscribeKlines symbol interval l now) s =
     unsubscribeKlines symbol interval l now s"
| "perform (SubscribeDepth symbol l now) s = subscribeDepth symbol l now s"
| "perform (UnsubscribeDepth symbol l now) s = unsubscribeDepth symbol l now s"
| "perform (SubscribeAccount l now) s = subscribeAccount l now s"
| "perform (UnsubscribeAccount l now) s = unsubscribeAccount l now s"
| "perform Connect s = connect s"
| "perform Disconnect s = disconnect s"
| "perform SocketCloses s = onclose (s\<lparr>ws := map_option (\<lambda>r. CLOSED) (ws s)\<rparr>)"
| "perform (TimeoutFires i) s = fireTimeout i s"
| "perform (GetBanStatus now) s = snd (getBanStatus now s)"

definition performAll :: "action list \<Rightarrow> client \<Rightarrow> client" where
  "performAll actions s = foldl (\<lambda>s1 a. perform a s1) s actions"

subsection \<open>Inputs for the examples\<close>

definition someCredentials :: "(string \<times> string) option" where
  "someCredentials = Some (''an API key'', ''a secret key'')"

text \<open>The body of a 418 response that names the end of the ban, and its parsed form.\<close>

definition teapotBody :: string where
  "teapotBody = ''{\"code\":-1003,\"msg\":\"Way too many requests; IP(1.2.3.4) banned until 1700000000000. Please use the websocket for live updates to avoid bans.\"}''"

definition teapotParsed :: json where
  "teapotParsed =
     JObj [(''code'', JNum (- 1003)),
           (''msg'', JStr ''Way too many requests; IP(1.2.3.4) banned until 1700000000000. Please use the websocket for live updates to avoid bans.'')]"

text \<open>A 429 response that reports too many orders, with no ban in it.\<close>

definition tooManyOrdersBody :: string where
  "tooManyOrdersBody = ''{\"code\":-1015,\"msg\":\"Too many new orders.\"}''"

definition tooManyOrdersParsed :: json where
  "tooManyOrdersParsed =
     JObj [(''code'', JNum (- 1015)), (''msg'', JStr ''Too many new orders.'')]"

definition env429 :: call_env where
  "env429 =
     \<lparr>startedAt = 1000, timerFires = [], repliedAt = 1200,
      reply = FetchNotOk 429 ''Too Many Requests'' tooManyOrdersBody (Some tooManyOrdersParsed),
      resumedAt = 1200\<rparr>"

text \<open>A client whose ban flag is set although the ban ended at time 1000.\<close>

definition staleBanClient :: client where
  "staleBanClient = (newClient None)\<lparr>banInfo := \<lparr>isBanned = True, banUntil = 1000\<rparr>\<rparr>"

text \<open>A response that is ok, a rejected \<open>fetch\<close>, and a response with a bad signature.\<close>

definition envOk :: "int \<Rightarrow> json \<Rightarrow> call_env" where
  "envOk t data =
     \<lparr>startedAt = t, timerFires = [], repliedAt = t + 100, reply = FetchOk (Some data),
      resumedAt = t + 100\<rparr>"

definition envDown :: "int \<Rightarrow> call_env" where
  "envDown t =
     \<lparr>startedAt = t, timerFires = [], repliedAt = t + 100,
      reply = FetchThrew (JsError ''TypeError'' ''Failed to fetch''),
      resumedAt = t + 100\<rparr>"

definition signatureBody :: string where
  "signatureBody = ''{\"code\":-1022,\"msg\":\"Signature for this request is not valid.\"}''"

definition signatureParsed :: json where
  "signatureParsed =
     JObj [(''code'', JNum (- 1022)),
           (''msg'', JStr ''Signature for this request is not valid.'')]"

text \<open>A 418 response with an empty body.\<close>

definition envBareTeapot :: call_env where
  "envBareTeapot =
     \<lparr>startedAt = 1000, timerFires = [], repliedAt = 1100,
      reply = FetchNotOk 418 ''I am a teapot'' [] None, resumedAt = 1100\<rparr>"

definition envSignature :: call_env where
  "envSignature =
     \<lparr>startedAt = 1000, timerFires = [], repliedAt = 1200,
      reply = FetchNotOk 400 ''Bad Request'' signatureBody (Some signatureParsed),
      resumedAt = 1200\<rparr>"

definition accountData :: json where
  "accountData = JObj [(''totalWalletBalance'', JStr ''12.5''), (''positions'', JArr [])]"

text \<open>A client whose window holds 400 requests made at time 50000.\<close>

definition fullWindowClient :: client where
  "fullWindowClient = (newClient someCredentials)\<lparr>requestTimestamps := replicate 400 50000\<rparr>"

text \<open>
  A first call with the key \<open>account_info\<close> has handed its request to \<open>fetch\<close> and
  waits for the response; then a second call with the same key starts and does the
  same.
\<close>

definition firstInFlight :: client where
  "firstInFlight =
     mar_send ''GET'' ''/fapi/v2/account''
       (snd (waitForRateLimit 1000 []
          (snd (mar_begin 1000 True (Some ''account_info'') False
                  (newClient someCredentials)))))"

definition bothInFlight :: client where
  "bothInFlight =
     mar_send ''GET'' ''/fapi/v2/account''
       (snd (waitForRateLimit 1001 []
          (snd (mar_begin 1001 True (Some ''account_info'') False firstInFlight))))"

definition cachedHistory :: json where
  "cachedHistory = JArr [JObj [(''id'', JStr ''7''), (''symbol'', JStr ''BTCUSDT'')]]"

definition historyClient :: client where
  "historyClient =
     (newClient someCredentials)
       \<lparr>orderHistoryCache := [(''orderHistory_BTCUSDT'', (cachedHistory, 1000))]\<rparr>"

text \<open>
  Clients with an open socket, with an open socket and a listen key, under a ban that
  ends at time 9000000, on a platform that is offline, and with a socket that the
  network has closed while the intervals were armed.
\<close>

definition openClient :: client where
  "openClient = (newClient someCredentials)\<lparr>ws := Some OPEN, pingInterval := True\<rparr>"

definition accountStreamClient :: client where
  "accountStreamClient = openClient\<lparr>listenKey := Some ''a listen key''\<rparr>"

definition bannedClient :: client where
  "bannedClient =
     (newClient someCredentials)\<lparr>banInfo := \<lparr>isBanned = True, banUntil = 9000000\<rparr>\<rparr>"

definition offlineClient :: client where
  "offlineClient = (newClient someCredentials)\<lparr>onLine := False\<rparr>"

definition droppedClient :: client where
  "droppedClient =
     (newClient someCredentials)\<lparr>ws := Some CLOSED, pingInterval := True,
        listenKey := Some ''a listen key'', listenKeyInterval := True\<rparr>"

section \<open>Properties\<close>

subsection \<open>Strings\<close>

lemma startsWith_append: "startsWith (p @ b) p"
  by (induction p) auto

lemma str_includes_append: "str_includes (a @ p @ b) p"
proof (induction a)
  case Nil
  show ?case using startsWith_append [of p b] by (cases "p @ b") auto
next
  case (Cons c a)
  then show ?case by simp
qed

lemma requestFailed_418:
  "str_includes (message (requestFailed 418 statusText errorText)) ''418''"
proof -
  have n: "natToString 418 = ''418''" by code_simp
  have "message (requestFailed 418 statusText errorText)
        = ''Request failed: '' @ ''418'' @ ('' '' @ statusText @ '' - '' @ errorText)"
    unfolding requestFailed_def mkError_def n by simp
  then show ?thesis using str_includes_append by metis
qed

subsection \<open>The ban guard\<close>

text \<open>
  C4. A ban flag that is still set after \<open>banUntil\<close> has passed corrects itself: at
  any later time \<open>checkIfBanned\<close> answers false and writes the cleared record to the
  object and to \<open>localStorage\<close>, and \<open>getBanStatus\<close>, which calls it, reports
  \<open>isBanned = false\<close>; nothing else has to reset the flag.
\<close>

theorem checkIfBanned_self_corrects:
  assumes "isBanned (banInfo s)" and "banUntil (banInfo s) < now"
  shows "fst (checkIfBanned now s) = False
         \<and> banInfo (snd (checkIfBanned now s)) = \<lparr>isBanned = False, banUntil = 0\<rparr>
         \<and> storedBanInfo (snd (checkIfBanned now s)) = Some \<lparr>isBanned = False, banUntil = 0\<rparr>
         \<and> fst (fst (getBanStatus now s)) = False
         \<and> banInfo (snd (getBanStatus now s)) = \<lparr>isBanned = False, banUntil = 0\<rparr>
         \<and> storedBanInfo (snd (getBanStatus now s)) = Some \<lparr>isBanned = False, banUntil = 0\<rparr>"
  using assms by (simp add: checkIfBanned_def getBanStatus_def resetBanInfo_def Let_def)

theorem checkIfBanned_self_corrects_witness:
  "isBanned (banInfo staleBanClient) \<and> banUntil (banInfo staleBanClient) < 2000
   \<and> fst (checkIfBanned 2000 staleBanClient) = False
   \<and> fst (fst (getBanStatus 2000 staleBanClient)) = False
   \<and> storedBanInfo (snd (getBanStatus 2000 staleBanClient))
       = Some \<lparr>isBanned = False, banUntil = 0\<rparr>"
  using checkIfBanned_self_corrects [where s = staleBanClient and now = 2000]
  by (simp add: staleBanClient_def newClient_def)

lemma banInfo_settleAll [simp]: "banInfo (settleAll k out s) = banInfo s"
  by (simp add: settleAll_def split: option.splits)

lemma storedBanInfo_settleAll [simp]: "storedBanInfo (settleAll k out s) = storedBanInfo s"
  by (simp add: settleAll_def split: option.splits)

lemma ban_mar_failed_match:
  "banRegex (message error) = Some ds \<Longrightarrow>
   banInfo (snd (mar_failed now method endpoint key error s))
     = \<lparr>isBanned = True, banUntil = parseInt ds\<rparr>
   \<and> storedBanInfo (snd (mar_failed now method endpoint key error s))
     = Some \<lparr>isBanned = True, banUntil = parseInt ds\<rparr>"
  by (cases "message error")
     (auto simp: mar_failed_def detectBanFromError_def setBanned_def Let_def)

lemma ban_mar_failed_marker:
  "banRegex (message error) = None \<Longrightarrow>
   str_includes (message error) ''418''
     \<or> str_includes (toLowerCase (message error)) ''banned'' \<Longrightarrow>
   banInfo (snd (mar_failed now method endpoint key error s))
     = \<lparr>isBanned = True, banUntil = now + twelveHoursMs\<rparr>
   \<and> storedBanInfo (snd (mar_failed now method endpoint key error s))
     = Some \<lparr>isBanned = True, banUntil = now + twelveHoursMs\<rparr>"
  by (cases "message error")
     (auto simp: mar_failed_def detectBanFromError_def setBanned_def Let_def toLowerCase_def)

lemma ban_mar_failed_none:
  "banRegex (message error) = None \<Longrightarrow>
   \<not> str_includes (message error) ''418'' \<Longrightarrow>
   \<not> str_includes (toLowerCase (message error)) ''banned'' \<Longrightarrow>
   banInfo (snd (mar_failed now method endpoint key error s)) = banInfo s
   \<and> storedBanInfo (snd (mar_failed now method endpoint key error s)) = storedBanInfo s"
  by (cases "message error")
     (auto simp: mar_failed_def detectBanFromError_def setBanned_def Let_def toLowerCase_def)

lemma scanBanBody_unmatched:
  "parsed = Some (JObj props) \<Longrightarrow> map_of props ''code'' = Some (JNum (- 1003)) \<Longrightarrow>
   map_of props ''msg'' = Some (JStr m) \<Longrightarrow> banRegex m = None \<Longrightarrow>
   scanBanBody now parsed s = setBanned (now + twelveHoursMs) s"
  by (simp add: scanBanBody_def)

lemma scanBanBody_skipped:
  "(\<forall>props. parsed = Some (JObj props) \<longrightarrow> map_of props ''code'' \<noteq> Some (JNum (- 1003))) \<Longrightarrow>
   scanBanBody now parsed s = s"
  by (auto simp: scanBanBody_def split: option.splits json.splits)

lemma mar_failed_keeps_12h:
  assumes "banRegex (message error) = None"
  shows "banInfo (snd (mar_failed now method endpoint key error
                         (setBanned (now + twelveHoursMs) s)))
           = \<lparr>isBanned = True, banUntil = now + twelveHoursMs\<rparr>
         \<and> storedBanInfo (snd (mar_failed now method endpoint key error
                                 (setBanned (now + twelveHoursMs) s)))
           = Some \<lparr>isBanned = True, banUntil = now + twelveHoursMs\<rparr>"
  using assms
  by (cases "message error")
     (auto simp: mar_failed_def detectBanFromError_def setBanned_def Let_def)

text \<open>
  C3, as the code has it. \<open>err\<close> is the error thrown for a response that is not ok,
  \<open>s'\<close> the object after \<open>makeAuthenticatedRequest\<close> has handled that response at time
  \<open>now\<close>. When the message of \<open>err\<close> matches the ban pattern with the digits \<open>ds\<close>,
  \<open>banUntil\<close> is exactly the number \<open>ds\<close> and the record is persisted. When nothing
  matches, \<open>banUntil\<close> is \<open>now\<close> plus twelve hours if the status is 418, if the message
  has \<open>418\<close> or \<open>banned\<close> in it, or if the status is 429 and the body is a JSON object
  with code -1003 whose \<open>msg\<close> carries no timestamp. A 429 with another code and no
  such text in its message leaves the ban record as it was.
\<close>

theorem banUntil_after_failed_request:
  fixes s :: client and status :: nat and statusText errorText verb endpoint :: string
    and now :: int and key :: "string option" and parsed :: "json option"
  defines "err \<equiv> requestFailed status statusText errorText"
      and "s' \<equiv> snd (mar_complete now verb endpoint key
                        (FetchNotOk status statusText errorText parsed) s)"
  shows "(banRegex (message err) = Some ds \<longrightarrow>
            banInfo s' = \<lparr>isBanned = True, banUntil = parseInt ds\<rparr>
            \<and> storedBanInfo s' = Some \<lparr>isBanned = True, banUntil = parseInt ds\<rparr>)
       \<and> (banRegex (message err) = None
            \<and> (status = 418
                \<or> str_includes (message err) ''418''
                \<or> str_includes (toLowerCase (message err)) ''banned''
                \<or> (status = 429 \<and> parsed = Some (JObj props)
                    \<and> map_of props ''code'' = Some (JNum (- 1003))
                    \<and> map_of props ''msg'' = Some (JStr m) \<and> banRegex m = None)) \<longrightarrow>
            banInfo s' = \<lparr>isBanned = True, banUntil = now + twelveHoursMs\<rparr>
            \<and> storedBanInfo s' = Some \<lparr>isBanned = True, banUntil = now + twelveHoursMs\<rparr>)
       \<and> (status = 429
            \<and> (\<forall>ps. parsed = Some (JObj ps) \<longrightarrow> map_of ps ''code'' \<noteq> Some (JNum (- 1003)))
            \<and> \<not> str_includes (message err) ''418''
            \<and> \<not> str_includes (toLowerCase (message err)) ''banned''
            \<and> banRegex (message err) = None \<longrightarrow>
            banInfo s' = banInfo s \<and> storedBanInfo s' = storedBanInfo s)"
proof (intro conjI impI)
  let ?s0 = "if status = 418 \<or> status = 429 then scanBanBody now parsed s else s"
  have s': "s' = snd (mar_failed now verb endpoint key err ?s0)"
    unfolding s'_def err_def by (simp add: mar_complete_def)
  {
    assume "banRegex (message err) = Some ds"
    then show "banInfo s' = \<lparr>isBanned = True, banUntil = parseInt ds\<rparr>"
      and "storedBanInfo s' = Some \<lparr>isBanned = True, banUntil = parseInt ds\<rparr>"
      unfolding s' using ban_mar_failed_match by blast+
  }
  {
    assume h: "banRegex (message err) = None
            \<and> (status = 418
                \<or> str_includes (message err) ''418''
                \<or> str_includes (toLowerCase (message err)) ''banned''
                \<or> (status = 429 \<and> parsed = Some (JObj props)
                    \<and> map_of props ''code'' = Some (JNum (- 1003))
                    \<and> map_of props ''msg'' = Some (JStr m) \<and> banRegex m = None))"
    then have none: "banRegex (message err) = None" by blast
    have "banInfo s' = \<lparr>isBanned = True, banUntil = now + twelveHoursMs\<rparr>
          \<and> storedBanInfo s' = Some \<lparr>isBanned = True, banUntil = now + twelveHoursMs\<rparr>"
    proof (cases "str_includes (message err) ''418''
                  \<or> str_includes (toLowerCase (message err)) ''banned''")
      case True
      then show ?thesis unfolding s' using ban_mar_failed_marker [OF none] by blast
    next
      case False
      have "status \<noteq> 418"
        using False requestFailed_418 unfolding err_def by blast
      with h False have "status = 429 \<and> parsed = Some (JObj props)
                    \<and> map_of props ''code'' = Some (JNum (- 1003))
                    \<and> map_of props ''msg'' = Some (JStr m) \<and> banRegex m = None" by blast
      then have "?s0 = setBanned (now + twelveHoursMs) s"
        using scanBanBody_unmatched by simp
      then show ?thesis unfolding s' using mar_failed_keeps_12h [OF none] by simp
    qed
    then show "banInfo s' = \<lparr>isBanned = True, banUntil = now + twelveHoursMs\<rparr>"
      and "storedBanInfo s' = Some \<lparr>isBanned = True, banUntil = now + twelveHoursMs\<rparr>"
      by blast+
  }
  {
    assume h: "status = 429
            \<and> (\<forall>ps. parsed = Some (JObj ps) \<longrightarrow> map_of ps ''code'' \<noteq> Some (JNum (- 1003)))
            \<and> \<not> str_includes (message err) ''418''
            \<and> \<not> str_includes (toLowerCase (message err)) ''banned''
            \<and> banRegex (message err) = None"
    then have "?s0 = s" using scanBanBody_skipped by simp
    then show "banInfo s' = banInfo s" and "storedBanInfo s' = storedBanInfo s"
      unfolding s' using ban_mar_failed_none h by simp_all
  }
qed

lemma teapot_message_matches:
  "banRegex (message (requestFailed 418 ''I am a teapot'' teapotBody)) = Some ''1700000000000''"
  by code_simp

lemma teapot_timestamp: "parseInt ''1700000000000'' = 1700000000000"
  by code_simp

lemma bare_teapot_message: "banRegex (message (requestFailed 418 ''I am a teapot'' [])) = None"
  by code_simp

theorem banUntil_after_failed_request_witness:
  "banRegex (message (requestFailed 418 ''I am a teapot'' teapotBody)) = Some ''1700000000000''
   \<and> banInfo (snd (mar_complete 5000 ''GET'' ''/fapi/v2/account'' (Some ''account_info'')
                     (FetchNotOk 418 ''I am a teapot'' teapotBody (Some teapotParsed))
                     (newClient someCredentials)))
       = \<lparr>isBanned = True, banUntil = 1700000000000\<rparr>
   \<and> banRegex (message (requestFailed 418 ''I am a teapot'' [])) = None
   \<and> banInfo (snd (mar_complete 5000 ''GET'' ''/fapi/v2/account'' (Some ''account_info'')
                     (FetchNotOk 418 ''I am a teapot'' [] None)
                     (newClient someCredentials)))
       = \<lparr>isBanned = True, banUntil = 5000 + 43200000\<rparr>"
  using banUntil_after_failed_request
          [where status = 418 and statusText = "''I am a teapot''" and errorText = teapotBody
             and ds = "''1700000000000''" and now = 5000 and verb = "''GET''"
             and endpoint = "''/fapi/v2/account''" and key = "Some ''account_info''"
             and parsed = "Some teapotParsed" and s = "newClient someCredentials"]
        banUntil_after_failed_request
          [where status = 418 and statusText = "''I am a teapot''" and errorText = "[]"
             and now = 5000 and verb = "''GET''"
             and endpoint = "''/fapi/v2/account''" and key = "Some ''account_info''"
             and parsed = None and s = "newClient someCredentials"]
        teapot_message_matches teapot_timestamp bare_teapot_message
  by (simp add: twelveHoursMs_def)

text \<open>
  C3 as it is stated fails for a 429: the response below reports too many orders, holds
  no timestamp, and leaves \<open>banUntil\<close> at 0 instead of \<open>now\<close> plus twelve hours.
\<close>

theorem rate_limited_429_sets_no_ban:
  "fst (makeAuthenticatedRequest env429 ''/fapi/v1/order'' ''POST'' True None 30000 False
          (newClient someCredentials))
     = Rejected (mkError ''Network error while POST /fapi/v1/order: Request failed: 429 Too Many Requests - {\"code\":-1015,\"msg\":\"Too many new orders.\"}'')
   \<and> banInfo (snd (makeAuthenticatedRequest env429 ''/fapi/v1/order'' ''POST'' True None 30000
                     False (newClient someCredentials)))
     = \<lparr>isBanned = False, banUntil = 0\<rparr>
   \<and> fetched (snd (makeAuthenticatedRequest env429 ''/fapi/v1/order'' ''POST'' True None 30000
                     False (newClient someCredentials)))
     = [(''POST'', ''/fapi/v1/order'')]"
  by code_simp

subsection \<open>The rate limiter\<close>

lemma sorted_take_le_drop:
  assumes "sorted (xs :: int list)" "x \<in> set (take n xs)" "y \<in> set (drop n xs)"
  shows "x \<le> y"
proof -
  have "sorted (take n xs @ drop n xs)" using assms(1) by simp
  then show ?thesis using assms(2,3) unfolding sorted_append by blast
qed

text \<open>
  C5, as the code has it. When \<open>wait\<close> runs later than \<open>maxWaitTime\<close> after the
  start of the wait, the call fails with the timeout error, whatever the window holds
  afterwards: admission is not checked again. Before that, if more than 390
  timestamps are recorded, the limiter removes the oldest tenth of them (rounded up),
  and every timestamp removed is at most as recent as every timestamp kept; with 390
  or fewer it removes nothing.
\<close>

theorem wait_after_maxWaitTime:
  assumes "now - startTime > maxWaitTime"
  shows "fst (wait now startTime nextSlotTime s)
           = WaitRejected (timeoutError (snd (wait now startTime nextSlotTime s)))
         \<and> waitLoop (now # later) startTime nextSlotTime s
           = (Rejected (timeoutError (snd (wait now startTime nextSlotTime s))),
              snd (wait now startTime nextSlotTime s))
         \<and> requestTimestamps (snd (wait now startTime nextSlotTime s))
           = (if length (requestTimestamps s) > 390
              then drop (removeCount (length (requestTimestamps s))) (sort (requestTimestamps s))
              else requestTimestamps s)
         \<and> (\<forall>x \<in> set (take (removeCount (length (requestTimestamps s)))
                           (sort (requestTimestamps s))).
             \<forall>y \<in> set (drop (removeCount (length (requestTimestamps s)))
                           (sort (requestTimestamps s))). x \<le> y)"
proof -
  have w: "wait now startTime nextSlotTime s
           = (let s1 = (if length (requestTimestamps s) > 390
                        then s\<lparr>requestTimestamps :=
                                 drop (removeCount (length (requestTimestamps s)))
                                      (sort (requestTimestamps s))\<rparr>
                        else s)
              in (WaitRejected (timeoutError s1), s1))"
    using assms
    by (simp add: wait_def MAX_REQUESTS_PER_MINUTE_def RATE_LIMIT_BUFFER_def)
  have a: "fst (wait now startTime nextSlotTime s)
           = WaitRejected (timeoutError (snd (wait now startTime nextSlotTime s)))"
    unfolding w by (simp add: Let_def)
  have b: "waitLoop (now # later) startTime nextSlotTime s
           = (Rejected (timeoutError (snd (wait now startTime nextSlotTime s))),
              snd (wait now startTime nextSlotTime s))"
    using a by (cases "wait now startTime nextSlotTime s") simp
  have c: "requestTimestamps (snd (wait now startTime nextSlotTime s))
           = (if length (requestTimestamps s) > 390
              then drop (removeCount (length (requestTimestamps s))) (sort (requestTimestamps s))
              else requestTimestamps s)"
    unfolding w by (simp add: Let_def)
  have d: "\<forall>x \<in> set (take (removeCount (length (requestTimestamps s)))
                           (sort (requestTimestamps s))).
             \<forall>y \<in> set (drop (removeCount (length (requestTimestamps s)))
                           (sort (requestTimestamps s))). x \<le> y"
    using sorted_take_le_drop [of "sort (requestTimestamps s)"] by auto
  from a b c d show ?thesis by blast
qed

lemma fullWindow_wait:
  "fst (wait 90001 60000 110000 fullWindowClient)
     = WaitRejected (mkError ''Timeout waiting for rate limit window (360/600 requests in window)'')"
  by code_simp

lemma fullWindow_len: "length (requestTimestamps (snd (wait 90001 60000 110000 fullWindowClient))) = 360"
  by code_simp

theorem wait_after_maxWaitTime_witness:
  "90001 - 60000 > maxWaitTime
   \<and> fst (wait 90001 60000 110000 fullWindowClient)
     = WaitRejected (mkError ''Timeout waiting for rate limit window (360/600 requests in window)'')
   \<and> requestTimestamps (snd (wait 90001 60000 110000 fullWindowClient)) = replicate 360 50000"
proof -
  have h: "90001 - 60000 > maxWaitTime" by (simp add: maxWaitTime_def)
  have l: "length (requestTimestamps fullWindowClient) = 400"
    by (simp add: fullWindowClient_def)
  have srt: "sort (replicate 400 (50000::int)) = replicate 400 50000"
    by (simp add: sorted_sort_id sorted_replicate)
  have r: "requestTimestamps fullWindowClient = replicate 400 50000"
    by (simp add: fullWindowClient_def)
  have dr: "drop 40 (replicate 400 (50000::int)) = replicate 360 50000" by simp
  show ?thesis
    using wait_after_maxWaitTime [OF h, where s = fullWindowClient and nextSlotTime = 110000]
          fullWindow_wait h
    by (simp add: l r srt removeCount_def dr)
qed

text \<open>
  C5 as it is stated fails: with 400 requests in the window the call waits, the timer
  runs at 61000 and at 90001, the second run removes 40 timestamps, a request would
  now be admitted, and the call is rejected all the same.
\<close>

theorem rejected_although_admissible_after_eviction:
  "fst (waitForRateLimit_enter 60000 fullWindowClient) = EnterWaiting 60000 110000
   \<and> fst (waitForRateLimit 60000 [61000, 90001] fullWindowClient)
     = Rejected (mkError ''Timeout waiting for rate limit window (360/600 requests in window)'')
   \<and> fst (wait 90001 60000 110000 fullWindowClient)
     = WaitRejected (mkError ''Timeout waiting for rate limit window (360/600 requests in window)'')
   \<and> length (requestTimestamps (snd (wait 90001 60000 110000 fullWindowClient))) = 360
   \<and> fst (canMakeRequest 90001 (snd (wait 90001 60000 110000 fullWindowClient))) = True"
  by code_simp

subsection \<open>Requests with the same key\<close>

text \<open>
  C1 at a concrete input: a second call with the key \<open>account_info\<close> starts while
  the request of the first is in flight. It finds the empty list under the key, is
  not registered as a waiter, and hands a second request to \<open>fetch\<close>; when both
  responses have arrived no promise has been settled through the waiter list.
\<close>

theorem second_request_is_not_coalesced:
  "fst (mar_begin 1000 True (Some ''account_info'') False (newClient someCredentials)) = Go
   \<and> pendingRequests firstInFlight = [(''account_info'', [])]
   \<and> fetched firstInFlight = [(''GET'', ''/fapi/v2/account'')]
   \<and> fst (mar_begin 1001 True (Some ''account_info'') False firstInFlight) = Go
   \<and> pendingRequests bothInFlight = [(''account_info'', [])]
   \<and> fetched bothInFlight = [(''GET'', ''/fapi/v2/account''), (''GET'', ''/fapi/v2/account'')]
   \<and> settled (snd (mar_complete 1200 ''GET'' ''/fapi/v2/account'' (Some ''account_info'')
                      (FetchOk (Some accountData))
                      (snd (mar_complete 1100 ''GET'' ''/fapi/v2/account'' (Some ''account_info'')
                              (FetchOk (Some accountData)) bothInFlight)))) = []"
  by code_simp

text \<open>
  The caches that exist are those of \<open>getOrderHistory\<close> and \<open>getAccountInfo\<close>. An
  entry carries the time at which the call that stored it began; a call that begins
  less than 60000 milliseconds after that time returns the stored data and leaves the
  object as it is. \<open>makeAuthenticatedRequest\<close> stores no result, and its parameter
  \<open>cacheTTL\<close> has no effect.
\<close>

lemma fresh_cache_is_served:
  "(map_of (orderHistoryCache s) (''orderHistory_'' @ symbolOrAll symbol) = Some (data, timestamp)
      \<and> startedAt env - timestamp < 60000
      \<longrightarrow> getOrderHistory toTrades env symbol s = (Resolved data, s))
   \<and> (accountInfoCache s = Some (data, timestamp) \<and> startedAt env - timestamp < 60000
      \<longrightarrow> getAccountInfo env s = (Resolved data, s))
   \<and> makeAuthenticatedRequest env endpoint verb requiresSignature cacheKey cacheTTL allowDuringBan s
      = makeAuthenticatedRequest env endpoint verb requiresSignature cacheKey 0 allowDuringBan s"
  by (simp add: getOrderHistory_def getAccountInfo_def makeAuthenticatedRequest_def Let_def)

lemma fresh_cache_is_served_example:
  "map_of (orderHistoryCache historyClient) (''orderHistory_'' @ symbolOrAll (Some ''BTCUSDT''))
     = Some (cachedHistory, 1000)
   \<and> startedAt (envOk 60999 JNull) - 1000 < 60000
   \<and> fst (getOrderHistory Inr (envOk 60999 JNull) (Some ''BTCUSDT'') historyClient) = Resolved cachedHistory
   \<and> fetched (snd (getOrderHistory Inr (envOk 60999 JNull) (Some ''BTCUSDT'') historyClient)) = []"
proof -
  have a: "map_of (orderHistoryCache historyClient) (''orderHistory_'' @ symbolOrAll (Some ''BTCUSDT''))
     = Some (cachedHistory, 1000)" by (simp add: historyClient_def symbolOrAll_def newClient_def)
  have b: "startedAt (envOk 60999 JNull) - 1000 < 60000" by (simp add: envOk_def)
  have f: "fetched historyClient = []" by (simp add: historyClient_def newClient_def)
  show ?thesis
    using fresh_cache_is_served [where s = historyClient and symbol = "Some ''BTCUSDT''"
             and data = cachedHistory and timestamp = 1000 and env = "envOk 60999 JNull"
             and toTrades = Inr] a b f
    by simp
qed

text \<open>
  C2 at a concrete input: a call of \<open>makeAuthenticatedRequest\<close> with the key
  \<open>account_info\<close> and a TTL of 30000 resolves at time 1100, and its result is
  stored nowhere; the same call at time 2000, well inside the TTL, hands a second
  request to \<open>fetch\<close> instead of returning the first result.
\<close>

theorem same_key_fetched_again_within_ttl:
  "fst (makeAuthenticatedRequest (envOk 1000 accountData) ''/fapi/v2/account'' ''GET'' True
          (Some ''account_info'') 30000 False (newClient someCredentials)) = Resolved accountData
   \<and> fetched (snd (makeAuthenticatedRequest (envOk 2000 accountData) ''/fapi/v2/account'' ''GET'' True
                     (Some ''account_info'') 30000 False
                     (snd (makeAuthenticatedRequest (envOk 1000 accountData) ''/fapi/v2/account''
                             ''GET'' True (Some ''account_info'') 30000 False
                             (newClient someCredentials)))))
     = [(''GET'', ''/fapi/v2/account''), (''GET'', ''/fapi/v2/account'')]"
  by code_simp

subsection \<open>Subscriptions\<close>

lemma map_of_update_same: "map_of (AList.update k v al) k = Some v"
  by (simp add: update_conv')

lemma map_of_delete_same: "map_of (AList.delete k al) k = None"
  by (simp add: delete_conv')

lemma subscribe_first:
  assumes "ws s = Some OPEN" and "map_of (subscribers s) K = None"
  shows "sent (subscribe K L t s) = sent s @ [SUBSCRIBE [tickerStream K] t]"
    and "ws (subscribe K L t s) = Some OPEN"
    and "map_of (subscribers (subscribe K L t s)) K = Some [L]"
  using assms
  by (simp_all add: subscribe_def sendSubscription_def Let_def update_conv' setAdd_def)

lemma subscribe_again:
  assumes "ws s = Some OPEN" and "map_of (subscribers s) K = Some ls"
  shows "sent (subscribe K L t s) = sent s"
    and "ws (subscribe K L t s) = Some OPEN"
    and "map_of (subscribers (subscribe K L t s)) K = Some (setAdd L ls)"
  using assms
  by (simp_all add: subscribe_def sendSubscription_def Let_def update_conv')

lemma unsubscribe_not_last:
  assumes "map_of (subscribers s) K = Some ls" and "setDelete L ls \<noteq> []"
  shows "sent (unsubscribe K L t s) = sent s"
    and "ws (unsubscribe K L t s) = ws s"
    and "map_of (subscribers (unsubscribe K L t s)) K = Some (setDelete L ls)"
  using assms
  by (simp_all add: unsubscribe_def Let_def update_conv')

lemma unsubscribe_last:
  assumes "ws s = Some OPEN" and "map_of (subscribers s) K = Some ls" and "setDelete L ls = []"
  shows "sent (unsubscribe K L t s) = sent s @ [UNSUBSCRIBE [tickerStream K] t]"
    and "map_of (subscribers (unsubscribe K L t s)) K = None"
  using assms
  by (simp_all add: unsubscribe_def sendUnsubscription_def Let_def delete_conv')

lemma ticker_sequence:
  fixes s :: client and K :: string and la lb :: listener and ta tb tc td :: int
  defines "s1 \<equiv> subscribe K la ta s"
  defines "s2 \<equiv> subscribe K lb tb s1"
  defines "s3 \<equiv> unsubscribe K la tc s2"
  defines "s4 \<equiv> unsubscribe K lb td s3"
  assumes "ws s = Some OPEN" and "map_of (subscribers s) K = None" and "la \<noteq> lb"
  shows "sent s1 = sent s @ [SUBSCRIBE [tickerStream K] ta]
         \<and> sent s2 = sent s1
         \<and> sent s3 = sent s2
         \<and> sent s4 = sent s3 @ [UNSUBSCRIBE [tickerStream K] td]
         \<and> map_of (subscribers s4) K = None"
proof -
  note a = subscribe_first [OF assms(5,6), of la ta, folded s1_def]
  note b = subscribe_again [OF a(2) a(3), of lb tb, folded s2_def]
  have l2: "setAdd lb [la] = [la, lb]" using assms(7) by (simp add: setAdd_def)
  have d1: "setDelete la [la, lb] = [lb]" using assms(7) by (simp add: setDelete_def)
  have "setDelete la (setAdd lb [la]) \<noteq> []" using l2 d1 by simp
  note c = unsubscribe_not_last [OF b(3) this, of tc, folded s3_def]
  have open3: "ws s3 = Some OPEN" using c(2) b(2) by simp
  have "setDelete lb (setDelete la (setAdd lb [la])) = []"
    using l2 d1 by (simp add: setDelete_def)
  note d = unsubscribe_last [OF open3 c(3) this, of td, folded s4_def]
  show ?thesis using a(1) b(1) c(1) d by simp
qed

lemma subscribeKlines_first:
  assumes "ws s = Some OPEN" and "map_of (klineSubscribers s) (klineKey K iv) = None"
  shows "sent (subscribeKlines K iv L t s) = sent s @ [SUBSCRIBE [klineStream K iv] t]"
    and "ws (subscribeKlines K iv L t s) = Some OPEN"
    and "map_of (klineSubscribers (subscribeKlines K iv L t s)) (klineKey K iv) = Some [L]"
  using assms
  by (simp_all add: subscribeKlines_def sendSubscription_def Let_def update_conv' setAdd_def)

lemma subscribeKlines_again:
  assumes "ws s = Some OPEN" and "map_of (klineSubscribers s) (klineKey K iv) = Some ls"
  shows "sent (subscribeKlines K iv L t s) = sent s"
    and "ws (subscribeKlines K iv L t s) = Some OPEN"
    and "map_of (klineSubscribers (subscribeKlines K iv L t s)) (klineKey K iv)
           = Some (setAdd L ls)"
  using assms
  by (simp_all add: subscribeKlines_def sendSubscription_def Let_def update_conv')

lemma unsubscribeKlines_not_last:
  assumes "map_of (klineSubscribers s) (klineKey K iv) = Some ls" and "setDelete L ls \<noteq> []"
  shows "sent (unsubscribeKlines K iv L t s) = sent s"
    and "ws (unsubscribeKlines K iv L t s) = ws s"
    and "map_of (klineSubscribers (unsubscribeKlines K iv L t s)) (klineKey K iv)
           = Some (setDelete L ls)"
  using assms
  by (simp_all add: unsubscribeKlines_def Let_def update_conv')

lemma unsubscribeKlines_last:
  assumes "ws s = Some OPEN" and "map_of (klineSubscribers s) (klineKey K iv) = Some ls"
    and "setDelete L ls = []"
  shows "sent (unsubscribeKlines K iv L t s) = sent s @ [UNSUBSCRIBE [klineStream K iv] t]"
    and "map_of (klineSubscribers (unsubscribeKlines K iv L t s)) (klineKey K iv) = None"
  using assms
  by (simp_all add: unsubscribeKlines_def sendUnsubscription_def Let_def delete_conv')

lemma kline_sequence:
  fixes s :: client and K iv :: string and la lb :: listener and ta tb tc td :: int
  defines "s1 \<equiv> subscribeKlines K iv la ta s"
  defines "s2 \<equiv> subscribeKlines K iv lb tb s1"
  defines "s3 \<equiv> unsubscribeKlines K iv la tc s2"
  defines "s4 \<equiv> unsubscribeKlines K iv lb td s3"
  assumes "ws s = Some OPEN" and "map_of (klineSubscribers s) (klineKey K iv) = None"
    and "la \<noteq> lb"
  shows "sent s1 = sent s @ [SUBSCRIBE [klineStream K iv] ta]
         \<and> sent s2 = sent s1
         \<and> sent s3 = sent s2
         \<and> sent s4 = sent s3 @ [UNSUBSCRIBE [klineStream K iv] td]
         \<and> map_of (klineSubscribers s4) (klineKey K iv) = None"
proof -
  note a = subscribeKlines_first [OF assms(5,6), of la ta, folded s1_def]
  note b = subscribeKlines_again [OF a(2) a(3), of lb tb, folded s2_def]
  have l2: "setAdd lb [la] = [la, lb]" using assms(7) by (simp add: setAdd_def)
  have d1: "setDelete la [la, lb] = [lb]" using assms(7) by (simp add: setDelete_def)
  have "setDelete la (setAdd lb [la]) \<noteq> []" using l2 d1 by simp
  note c = unsubscribeKlines_not_last [OF b(3) this, of tc, folded s3_def]
  have open3: "ws s3 = Some OPEN" using c(2) b(2) by simp
  have "setDelete lb (setDelete la (setAdd lb [la])) = []"
    using l2 d1 by (simp add: setDelete_def)
  note d = unsubscribeKlines_last [OF open3 c(3) this, of td, folded s4_def]
  show ?thesis using a(1) b(1) c(1) d by simp
qed

lemma subscribeDepth_first:
  assumes "ws s = Some OPEN" and "map_of (depthSubscribers s) K = None"
  shows "sent (subscribeDepth K L t s) = sent s @ [SUBSCRIBE [depthStream K] t]"
    and "ws (subscribeDepth K L t s) = Some OPEN"
    and "map_of (depthSubscribers (subscribeDepth K L t s)) K = Some [L]"
  using assms
  by (simp_all add: subscribeDepth_def sendSubscription_def Let_def update_conv' setAdd_def)

lemma subscribeDepth_again:
  assumes "ws s = Some OPEN" and "map_of (depthSubscribers s) K = Some ls"
  shows "sent (subscribeDepth K L t s) = sent s"
    and "ws (subscribeDepth K L t s) = Some OPEN"
    and "map_of (depthSubscribers (subscribeDepth K L t s)) K = Some (setAdd L ls)"
  using assms
  by (simp_all add: subscribeDepth_def sendSubscription_def Let_def update_conv')

lemma unsubscribeDepth_not_last:
  assumes "map_of (depthSubscribers s) K = Some ls" and "setDelete L ls \<noteq> []"
  shows "sent (unsubscribeDepth K L t s) = sent s"
    and "ws (unsubscribeDepth K L t s) = ws s"
    and "map_of (depthSubscribers (unsubscribeDepth K L t s)) K = Some (setDelete L ls)"
  using assms
  by (simp_all add: unsubscribeDepth_def Let_def update_conv')

lemma unsubscribeDepth_last:
  assumes "ws s = Some OPEN" and "map_of (depthSubscribers s) K = Some ls"
    and "setDelete L ls = []"
  shows "sent (unsubscribeDepth K L t s) = sent s @ [UNSUBSCRIBE [depthStream K] t]"
    and "map_of (depthSubscribers (unsubscribeDepth K L t s)) K = None"
  using assms
  by (simp_all add: unsubscribeDepth_def sendUnsubscription_def Let_def delete_conv')

lemma depth_sequence:
  fixes s :: client and K :: string and la lb :: listener and ta tb tc td :: int
  defines "s1 \<equiv> subscribeDepth K la ta s"
  defines "s2 \<equiv> subscribeDepth K lb tb s1"
  defines "s3 \<equiv> unsubscribeDepth K la tc s2"
  defines "s4 \<equiv> unsubscribeDepth K lb td s3"
  assumes "ws s = Some OPEN" and "map_of (depthSubscribers s) K = None" and "la \<noteq> lb"
  shows "sent s1 = sent s @ [SUBSCRIBE [depthStream K] ta]
         \<and> sent s2 = sent s1
         \<and> sent s3 = sent s2
         \<and> sent s4 = sent s3 @ [UNSUBSCRIBE [depthStream K] td]
         \<and> map_of (depthSubscribers s4) K = None"
proof -
  note a = subscribeDepth_first [OF assms(5,6), of la ta, folded s1_def]
  note b = subscribeDepth_again [OF a(2) a(3), of lb tb, folded s2_def]
  have l2: "setAdd lb [la] = [la, lb]" using assms(7) by (simp add: setAdd_def)
  have d1: "setDelete la [la, lb] = [lb]" using assms(7) by (simp add: setDelete_def)
  have "setDelete la (setAdd lb [la]) \<noteq> []" using l2 d1 by simp
  note c = unsubscribeDepth_not_last [OF b(3) this, of tc, folded s3_def]
  have open3: "ws s3 = Some OPEN" using c(2) b(2) by simp
  have "setDelete lb (setDelete la (setAdd lb [la])) = []"
    using l2 d1 by (simp add: setDelete_def)
  note d = unsubscribeDepth_last [OF open3 c(3) this, of td, folded s4_def]
  show ?thesis using a(1) b(1) c(1) d by simp
qed

text \<open>
  C6, as the code has it, for the three kinds of key that are kept in a map: the
  ticker of a symbol, the klines of a symbol and an interval, and the depth of a
  symbol. While the socket is open and the key has no listener yet, the method that
  subscribes a first listener sends one SUBSCRIBE for the stream of the key,
  subscribing a second listener sends nothing, unsubscribing the first listener sends
  nothing, and unsubscribing the last listener sends one UNSUBSCRIBE and removes the
  key.
\<close>

theorem one_subscribe_one_unsubscribe_while_open:
  fixes s :: client and K iv :: string and la lb :: listener and ta tb tc td :: int
  defines "a1 \<equiv> subscribe K la ta s"
  defines "a2 \<equiv> subscribe K lb tb a1"
  defines "a3 \<equiv> unsubscribe K la tc a2"
  defines "a4 \<equiv> unsubscribe K lb td a3"
  defines "k1 \<equiv> subscribeKlines K iv la ta s"
  defines "k2 \<equiv> subscribeKlines K iv lb tb k1"
  defines "k3 \<equiv> unsubscribeKlines K iv la tc k2"
  defines "k4 \<equiv> unsubscribeKlines K iv lb td k3"
  defines "d1 \<equiv> subscribeDepth K la ta s"
  defines "d2 \<equiv> subscribeDepth K lb tb d1"
  defines "d3 \<equiv> unsubscribeDepth K la tc d2"
  defines "d4 \<equiv> unsubscribeDepth K lb td d3"
  assumes "ws s = Some OPEN" and "la \<noteq> lb"
  shows "(map_of (subscribers s) K = None \<longrightarrow>
            sent a1 = sent s @ [SUBSCRIBE [tickerStream K] ta]
            \<and> sent a2 = sent a1
            \<and> sent a3 = sent a2
            \<and> sent a4 = sent a3 @ [UNSUBSCRIBE [tickerStream K] td]
            \<and> map_of (subscribers a4) K = None)
       \<and> (map_of (klineSubscribers s) (klineKey K iv) = None \<longrightarrow>
            sent k1 = sent s @ [SUBSCRIBE [klineStream K iv] ta]
            \<and> sent k2 = sent k1
            \<and> sent k3 = sent k2
            \<and> sent k4 = sent k3 @ [UNSUBSCRIBE [klineStream K iv] td]
            \<and> map_of (klineSubscribers k4) (klineKey K iv) = None)
       \<and> (map_of (depthSubscribers s) K = None \<longrightarrow>
            sent d1 = sent s @ [SUBSCRIBE [depthStream K] ta]
            \<and> sent d2 = sent d1
            \<and> sent d3 = sent d2
            \<and> sent d4 = sent d3 @ [UNSUBSCRIBE [depthStream K] td]
            \<and> map_of (depthSubscribers d4) K = None)"
proof -
  have ticker: "map_of (subscribers s) K = None \<longrightarrow>
            sent a1 = sent s @ [SUBSCRIBE [tickerStream K] ta]
            \<and> sent a2 = sent a1
            \<and> sent a3 = sent a2
            \<and> sent a4 = sent a3 @ [UNSUBSCRIBE [tickerStream K] td]
            \<and> map_of (subscribers a4) K = None"
  proof
    assume h: "map_of (subscribers s) K = None"
    from ticker_sequence [OF assms(13) h assms(14), of ta tb tc td]
    show "sent a1 = sent s @ [SUBSCRIBE [tickerStream K] ta]
            \<and> sent a2 = sent a1
            \<and> sent a3 = sent a2
            \<and> sent a4 = sent a3 @ [UNSUBSCRIBE [tickerStream K] td]
            \<and> map_of (subscribers a4) K = None"
      unfolding a1_def a2_def a3_def a4_def .
  qed
  have kline: "map_of (klineSubscribers s) (klineKey K iv) = None \<longrightarrow>
            sent k1 = sent s @ [SUBSCRIBE [klineStream K iv] ta]
            \<and> sent k2 = sent k1
            \<and> sent k3 = sent k2
            \<and> sent k4 = sent k3 @ [UNSUBSCRIBE [klineStream K iv] td]
            \<and> map_of (klineSubscribers k4) (klineKey K iv) = None"
  proof
    assume h: "map_of (klineSubscribers s) (klineKey K iv) = None"
    from kline_sequence [OF assms(13) h assms(14), of ta tb tc td]
    show "sent k1 = sent s @ [SUBSCRIBE [klineStream K iv] ta]
            \<and> sent k2 = sent k1
            \<and> sent k3 = sent k2
            \<and> sent k4 = sent k3 @ [UNSUBSCRIBE [klineStream K iv] td]
            \<and> map_of (klineSubscribers k4) (klineKey K iv) = None"
      unfolding k1_def k2_def k3_def k4_def .
  qed
  have depth: "map_of (depthSubscribers s) K = None \<longrightarrow>
            sent d1 = sent s @ [SUBSCRIBE [depthStream K] ta]
            \<and> sent d2 = sent d1
            \<and> sent d3 = sent d2
            \<and> sent d4 = sent d3 @ [UNSUBSCRIBE [depthStream K] td]
            \<and> map_of (depthSubscribers d4) K = None"
  proof
    assume h: "map_of (depthSubscribers s) K = None"
    from depth_sequence [OF assms(13) h assms(14), of ta tb tc td]
    show "sent d1 = sent s @ [SUBSCRIBE [depthStream K] ta]
            \<and> sent d2 = sent d1
            \<and> sent d3 = sent d2
            \<and> sent d4 = sent d3 @ [UNSUBSCRIBE [depthStream K] td]
            \<and> map_of (depthSubscribers d4) K = None"
      unfolding d1_def d2_def d3_def d4_def .
  qed
  from ticker kline depth show ?thesis by (intro conjI)
qed

lemma example_streams:
  "tickerStream ''BTCUSDT'' = ''btcusdt@ticker''"
  "klineStream ''BTCUSDT'' ''1m'' = ''btcusdt@kline_1m''"
  "depthStream ''BTCUSDT'' = ''btcusdt@depth20@100ms''"
  by code_simp+

theorem one_subscribe_one_unsubscribe_while_open_witness:
  "ws openClient = Some OPEN \<and> (1::nat) \<noteq> 2
   \<and> map_of (subscribers openClient) ''BTCUSDT'' = None
   \<and> sent (unsubscribe ''BTCUSDT'' 2 40 (unsubscribe ''BTCUSDT'' 1 30
             (subscribe ''BTCUSDT'' 2 20 (subscribe ''BTCUSDT'' 1 10 openClient))))
      = [SUBSCRIBE [''btcusdt@ticker''] 10, UNSUBSCRIBE [''btcusdt@ticker''] 40]
   \<and> map_of (klineSubscribers openClient) (klineKey ''BTCUSDT'' ''1m'') = None
   \<and> sent (unsubscribeKlines ''BTCUSDT'' ''1m'' 2 40 (unsubscribeKlines ''BTCUSDT'' ''1m'' 1 30
             (subscribeKlines ''BTCUSDT'' ''1m'' 2 20
                (subscribeKlines ''BTCUSDT'' ''1m'' 1 10 openClient))))
      = [SUBSCRIBE [''btcusdt@kline_1m''] 10, UNSUBSCRIBE [''btcusdt@kline_1m''] 40]
   \<and> map_of (depthSubscribers openClient) ''BTCUSDT'' = None
   \<and> sent (unsubscribeDepth ''BTCUSDT'' 2 40 (unsubscribeDepth ''BTCUSDT'' 1 30
             (subscribeDepth ''BTCUSDT'' 2 20 (subscribeDepth ''BTCUSDT'' 1 10 openClient))))
      = [SUBSCRIBE [''btcusdt@depth20@100ms''] 10, UNSUBSCRIBE [''btcusdt@depth20@100ms''] 40]"
proof -
  have a: "ws openClient = Some OPEN" by (simp add: openClient_def)
  have c: "(1::nat) \<noteq> 2" by simp
  have b: "map_of (subscribers openClient) ''BTCUSDT'' = None"
    "map_of (klineSubscribers openClient) (klineKey ''BTCUSDT'' ''1m'') = None"
    "map_of (depthSubscribers openClient) ''BTCUSDT'' = None"
    by (simp_all add: openClient_def newClient_def)
  have e: "sent openClient = []" by (simp add: openClient_def newClient_def)
  show ?thesis
    using one_subscribe_one_unsubscribe_while_open
            [OF a c, where K = "''BTCUSDT''" and iv = "''1m''"
               and ta = 10 and tb = 20 and tc = 30 and td = 40]
          a b example_streams e
    by simp
qed

text \<open>
  C6 as it is stated fails in two ways. When the socket is not open, two listeners of
  a ticker are registered and removed again and neither a SUBSCRIBE nor an
  UNSUBSCRIBE is sent. And for the account stream, with the socket open and a listen
  key at hand, the second listener sends a second SUBSCRIBE.
\<close>

theorem nothing_sent_while_socket_not_open:
  "sent (subscribe ''BTCUSDT'' 2 20 (subscribe ''BTCUSDT'' 1 10 (newClient someCredentials))) = []
   \<and> map_of (subscribers (subscribe ''BTCUSDT'' 2 20 (subscribe ''BTCUSDT'' 1 10
                (newClient someCredentials)))) ''BTCUSDT'' = Some [1, 2]
   \<and> sent (unsubscribe ''BTCUSDT'' 2 40 (unsubscribe ''BTCUSDT'' 1 30
             (subscribe ''BTCUSDT'' 2 20 (subscribe ''BTCUSDT'' 1 10 (newClient someCredentials)))))
      = []
   \<and> map_of (subscribers (unsubscribe ''BTCUSDT'' 2 40 (unsubscribe ''BTCUSDT'' 1 30
             (subscribe ''BTCUSDT'' 2 20 (subscribe ''BTCUSDT'' 1 10 (newClient someCredentials))))))
        ''BTCUSDT'' = None
   \<and> accountSubscribers accountStreamClient = []
   \<and> sent (subscribeAccount 1 10 accountStreamClient) = [SUBSCRIBE [''a listen key''] 10]
   \<and> sent (subscribeAccount 2 20 (subscribeAccount 1 10 accountStreamClient))
      = [SUBSCRIBE [''a listen key''] 10, SUBSCRIBE [''a listen key''] 20]"
  by code_simp

text \<open>
  Without a listen key the account stream sends nothing on either listener, and the
  last listener leaving sends an UNSUBSCRIBE only while a listen key is at hand.
\<close>

lemma account_stream_without_listen_key:
  "sent (subscribeAccount 2 20 (subscribeAccount 1 10 openClient)) = []
   \<and> sent (unsubscribeAccount 2 40 (unsubscribeAccount 1 30
             (subscribeAccount 2 20 (subscribeAccount 1 10 openClient)))) = []
   \<and> sent (unsubscribeAccount 2 40 (unsubscribeAccount 1 30
             (subscribeAccount 2 20 (subscribeAccount 1 10 accountStreamClient))))
      = [SUBSCRIBE [''a listen key''] 10, SUBSCRIBE [''a listen key''] 20,
         UNSUBSCRIBE [''a listen key''] 40]"
  by code_simp

subsection \<open>What the ban guard and the rate limiter leave alone\<close>

lemma frame_resetBanInfo [simp]:
  "fetched (resetBanInfo s) = fetched s"
  "pendingRequests (resetBanInfo s) = pendingRequests s"
  by (simp_all add: resetBanInfo_def Let_def)

lemma frame_setBanned [simp]:
  "fetched (setBanned t s) = fetched s"
  "pendingRequests (setBanned t s) = pendingRequests s"
  by (simp_all add: setBanned_def Let_def)

lemma frame_checkIfBanned [simp]:
  "fetched (snd (checkIfBanned now s)) = fetched s"
  "pendingRequests (snd (checkIfBanned now s)) = pendingRequests s"
  by (simp_all add: checkIfBanned_def)

lemma frame_detectBanFromError [simp]:
  "fetched (snd (detectBanFromError now error s)) = fetched s"
  "pendingRequests (snd (detectBanFromError now error s)) = pendingRequests s"
  by (simp_all add: detectBanFromError_def split: option.splits)

lemma frame_scanBanBody [simp]:
  "fetched (scanBanBody now parsed s) = fetched s"
  "pendingRequests (scanBanBody now parsed s) = pendingRequests s"
  by (simp_all add: scanBanBody_def split: option.splits json.splits)

lemma frame_canMakeRequest [simp]:
  "fetched (snd (canMakeRequest now s)) = fetched s"
  "pendingRequests (snd (canMakeRequest now s)) = pendingRequests s"
proof -
  obtain b s1 where c: "checkIfBanned now s = (b, s1)" by (cases "checkIfBanned now s")
  have "fetched s1 = fetched s" "pendingRequests s1 = pendingRequests s"
    using frame_checkIfBanned [of now s] c by simp_all
  then show "fetched (snd (canMakeRequest now s)) = fetched s"
    "pendingRequests (snd (canMakeRequest now s)) = pendingRequests s"
    by (simp_all add: canMakeRequest_def c Let_def split: bool.splits)
qed

lemma frame_wait [simp]:
  "fetched (snd (wait now startTime nextSlotTime s)) = fetched s"
  "pendingRequests (snd (wait now startTime nextSlotTime s)) = pendingRequests s"
proof -
  obtain b s1 where c: "checkIfBanned now s = (b, s1)" by (cases "checkIfBanned now s")
  obtain b2 s2 where d: "canMakeRequest now s1 = (b2, s2)" by (cases "canMakeRequest now s1")
  have 1: "fetched s1 = fetched s" "pendingRequests s1 = pendingRequests s"
    using frame_checkIfBanned [of now s] c by simp_all
  have 2: "fetched s2 = fetched s1" "pendingRequests s2 = pendingRequests s1"
    using frame_canMakeRequest [of now s1] d by simp_all
  show "fetched (snd (wait now startTime nextSlotTime s)) = fetched s"
    "pendingRequests (snd (wait now startTime nextSlotTime s)) = pendingRequests s"
    using 1 2 by (simp_all add: wait_def c d Let_def split: bool.splits)
qed

lemma frame_waitLoop [simp]:
  "fetched (snd (waitLoop fires startTime nextSlotTime s)) = fetched s
   \<and> pendingRequests (snd (waitLoop fires startTime nextSlotTime s)) = pendingRequests s"
proof (induction fires arbitrary: s)
  case Nil
  show ?case by simp
next
  case (Cons t fires)
  obtain r s1 where w: "wait t startTime nextSlotTime s = (r, s1)"
    by (cases "wait t startTime nextSlotTime s")
  have 1: "fetched s1 = fetched s" "pendingRequests s1 = pendingRequests s"
    using frame_wait [of t startTime nextSlotTime s] w by simp_all
  show ?case using 1 Cons.IH [of s1] by (cases r) (simp_all add: w)
qed

lemma frame_waitForRateLimit_enter [simp]:
  "fetched (snd (waitForRateLimit_enter now s)) = fetched s"
  "pendingRequests (snd (waitForRateLimit_enter now s)) = pendingRequests s"
proof -
  obtain b s1 where c: "checkIfBanned now s = (b, s1)" by (cases "checkIfBanned now s")
  obtain b2 s2 where d: "canMakeRequest now s1 = (b2, s2)" by (cases "canMakeRequest now s1")
  have 1: "fetched s1 = fetched s" "pendingRequests s1 = pendingRequests s"
    using frame_checkIfBanned [of now s] c by simp_all
  have 2: "fetched s2 = fetched s1" "pendingRequests s2 = pendingRequests s1"
    using frame_canMakeRequest [of now s1] d by simp_all
  show "fetched (snd (waitForRateLimit_enter now s)) = fetched s"
    "pendingRequests (snd (waitForRateLimit_enter now s)) = pendingRequests s"
    using 1 2 by (simp_all add: waitForRateLimit_enter_def c d Let_def split: bool.splits)
qed

lemma frame_waitForRateLimit [simp]:
  "fetched (snd (waitForRateLimit now fires s)) = fetched s"
  "pendingRequests (snd (waitForRateLimit now fires s)) = pendingRequests s"
proof -
  obtain r s1 where e: "waitForRateLimit_enter now s = (r, s1)"
    by (cases "waitForRateLimit_enter now s")
  have 1: "fetched s1 = fetched s" "pendingRequests s1 = pendingRequests s"
    using frame_waitForRateLimit_enter [of now s] e by simp_all
  show "fetched (snd (waitForRateLimit now fires s)) = fetched s"
    "pendingRequests (snd (waitForRateLimit now fires s)) = pendingRequests s"
    using 1 frame_waitLoop by (cases r; simp add: waitForRateLimit_def e)+
qed

lemma fetched_settleAll [simp]: "fetched (settleAll k out s) = fetched s"
  by (simp add: settleAll_def split: option.splits)

lemma fetched_mar_begin [simp]:
  "fetched (snd (mar_begin now rs key adb s)) = fetched s"
proof -
  obtain b s1 where c: "checkIfBanned now s = (b, s1)" by (cases "checkIfBanned now s")
  have 1: "fetched s1 = fetched s" using frame_checkIfBanned [of now s] c by simp
  show ?thesis using 1
    by (simp add: mar_begin_def c split: bool.splits option.splits list.splits)
qed

lemma fetched_mar_failed [simp]:
  "fetched (snd (mar_failed now verb endpoint key error s)) = fetched s"
  by (simp add: mar_failed_def Let_def)

lemma fetched_mar_complete [simp]:
  "fetched (snd (mar_complete now verb endpoint key r s)) = fetched s"
  by (cases r) (simp_all add: mar_complete_def Let_def)

text \<open>One call hands at most one request to fetch, and only its own.\<close>

lemma fetched_makeAuthenticatedRequest:
  "fetched (snd (makeAuthenticatedRequest env endpoint verb rs key ttl adb s)) = fetched s
   \<or> fetched (snd (makeAuthenticatedRequest env endpoint verb rs key ttl adb s))
      = fetched s @ [(verb, endpoint)]"
proof -
  obtain b s1 where c: "mar_begin (startedAt env) rs key adb s = (b, s1)"
    by (cases "mar_begin (startedAt env) rs key adb s")
  have 1: "fetched s1 = fetched s" using fetched_mar_begin [of "startedAt env" rs key adb s] c by simp
  obtain w s2 where d: "waitForRateLimit (startedAt env) (timerFires env) s1 = (w, s2)"
    by (cases "waitForRateLimit (startedAt env) (timerFires env) s1")
  have 2: "fetched s2 = fetched s1"
    using frame_waitForRateLimit(1) [of "startedAt env" "timerFires env" s1] d by simp
  show ?thesis
    using 1 2
    by (cases b; cases w) (simp_all add: makeAuthenticatedRequest_def c d mar_send_def)
qed

subsection \<open>Orders\<close>

lemma fetched_connect [simp]: "fetched (connect s) = fetched s"
  by (simp add: connect_def)

lemma userMessage_price:
  "userMessage (mkError ''Price is required for LIMIT orders'') = ''Error: Price is required for LIMIT orders''"
  by code_simp

lemma userMessage_params:
  "userMessage (mkError ''Invalid order parameters'') = ''Error: Invalid order parameters''"
  by code_simp

lemma userMessage_offline:
  "userMessage (mkError ''No internet connection available'') = ''Error: No internet connection available''"
  by code_simp

text \<open>
  C7, as the code has it. A LIMIT order with no price, or with a price that is not
  positive, is rejected and nothing is handed to \<open>fetch\<close>. While the platform is
  online the error is the one for invalid parameters (when the symbol or the
  quantity is invalid as well) or the one that asks for a price; before it rejects,
  \<open>placeOrder\<close> has opened a socket when none was open or being opened.
\<close>

theorem limit_order_without_price_fails_before_any_request:
  assumes "ty = LIMIT" and "falsyNumber price \<or> the price \<le> 0"
  shows "(\<exists>e. fst (placeOrder toTrade envs symbol sd ty quantity price leverage s) = Rejected e)
         \<and> fetched (snd (placeOrder toTrade envs symbol sd ty quantity price leverage s)) = fetched s
         \<and> (onLine s \<longrightarrow>
              fst (placeOrder toTrade envs symbol sd ty quantity price leverage s)
                = Rejected (mkError (if symbol = [] \<or> quantity \<le> 0
                                     then ''Error: Invalid order parameters''
                                     else ''Error: Price is required for LIMIT orders'')))
         \<and> (onLine s \<and> ws s \<noteq> Some OPEN \<and> \<not> isConnecting s \<longrightarrow>
              ws (snd (placeOrder toTrade envs symbol sd ty quantity price leverage s))
                = Some CONNECTING)"
  using assms
  by (auto simp: placeOrder_def rethrow_def Let_def userMessage_price userMessage_params
        isConnected_def connect_def)

theorem limit_order_without_price_fails_before_any_request_witness:
  "LIMIT = LIMIT \<and> falsyNumber None
   \<and> fst (placeOrder Inr [] ''BTCUSDT'' BUY LIMIT 1 None None (newClient someCredentials))
       = Rejected (mkError ''Error: Price is required for LIMIT orders'')
   \<and> fetched (snd (placeOrder Inr [] ''BTCUSDT'' BUY LIMIT 1 None None (newClient someCredentials))) = []"
proof -
  have a: "falsyNumber None \<or> the (None :: rat option) \<le> 0" by (simp add: falsyNumber_def)
  have o: "onLine (newClient someCredentials)" by (simp add: newClient_def)
  have f: "fetched (newClient someCredentials) = []" by (simp add: newClient_def)
  show ?thesis
    using limit_order_without_price_fails_before_any_request
            [OF refl a, where s = "newClient someCredentials" and symbol = "''BTCUSDT''"
               and quantity = 1 and toTrade = Inr and envs = "[]" and sd = BUY and leverage = None]
          o f
    by (simp add: falsyNumber_def)
qed

text \<open>
  C7 as it is stated fails. When \<open>navigator.onLine\<close> is false the LIMIT order with no
  price is rejected with the error for a missing connection, not for its parameters;
  and on a client with no socket a connection is opened before the order is rejected.
\<close>

theorem offline_limit_order_fails_with_connection_error:
  "fst (placeOrder Inr [] ''BTCUSDT'' BUY LIMIT 1 None None offlineClient)
     = Rejected (mkError ''Error: No internet connection available'')
   \<and> ws (newClient someCredentials) = None
   \<and> ws (snd (placeOrder Inr [] ''BTCUSDT'' BUY LIMIT 1 None None (newClient someCredentials)))
     = Some CONNECTING"
  by code_simp

text \<open>
  While \<open>navigator.onLine\<close> is false every order, whatever its parameters, is rejected
  with the error for a missing connection and the object is left as it is.
\<close>

lemma offline_order_fails_with_connection_error:
  "\<not> onLine s \<Longrightarrow>
   placeOrder toTrade envs symbol sd ty quantity price leverage s
     = (Rejected (mkError ''Error: No internet connection available''), s)"
  by (simp add: placeOrder_def rethrow_def userMessage_offline)

text \<open>
  What the retry loop does recognise. \<open>placeOrder\<close> has passed its checks and reached
  the loop with the object \<open>s1\<close>; the first order request is handed to \<open>fetch\<close> and
  fails with an error whose message carries one of the markers \<open>Invalid API-key\<close>,
  \<open>Signature\<close>, \<open>Parameter\<close> or \<open>banned\<close>. Then \<open>placeOrder\<close> rejects at once
  with that error (under the message for the user), the environments of later
  attempts are not touched, and exactly one order request has been handed to
  \<open>fetch\<close>.
\<close>

lemma nonTransient_error_is_not_retried:
  assumes "onLine s" and "symbol \<noteq> []" and "0 < quantity"
    and "ty = LIMIT \<longrightarrow> \<not> falsyNumber price \<and> 0 < the price"
    and "prepareLeverage envs symbol leverage (if isConnected s then s else connect s)
           = (Some (env # later), s1)"
    and "makeAuthenticatedRequest env ''/fapi/v1/order'' ''POST'' True
           (Some (orderCacheKey s1 symbol sd ty quantity price)) 30000 False s1
           = (Rejected error, s2)"
    and "nonTransient (message error)"
    and "fetched s2 \<noteq> fetched s1"
  shows "placeOrder toTrade envs symbol sd ty quantity price leverage s
           = (Rejected (mkError (userMessage error)), s2)
         \<and> fetched s2 = fetched s1 @ [(''POST'', ''/fapi/v1/order'')]"
proof -
  have loop: "orderAttempts toTrade (env # later) 0
                (orderCacheKey s1 symbol sd ty quantity price) s1 = (Rejected error, s2)"
    using assms(6,7) by (simp add: maxAttempts_def giveUp_def)
  have "placeOrder toTrade envs symbol sd ty quantity price leverage s
          = rethrow (Rejected error, s2)"
    using assms(1-5) loop by (auto simp: placeOrder_def Let_def)
  then have a: "placeOrder toTrade envs symbol sd ty quantity price leverage s
           = (Rejected (mkError (userMessage error)), s2)"
    by (simp add: rethrow_def)
  have b: "fetched s2 = fetched s1 @ [(''POST'', ''/fapi/v1/order'')]"
    using fetched_makeAuthenticatedRequest
            [of env "''/fapi/v1/order''" "''POST''" True
                "Some (orderCacheKey s1 symbol sd ty quantity price)" 30000 False s1]
          assms(6,8)
    by simp
  from a b show ?thesis by simp
qed

lemma signature_attempt:
  "fst (makeAuthenticatedRequest envSignature ''/fapi/v1/order'' ''POST'' True
          (Some (orderCacheKey (connect (newClient someCredentials)) ''BTCUSDT'' BUY MARKET 1 None))
          30000 False (connect (newClient someCredentials)))
   = Rejected (mkError ''Network error while POST /fapi/v1/order: Request failed: 400 Bad Request - {\"code\":-1022,\"msg\":\"Signature for this request is not valid.\"}'')"
  by code_simp

lemma signature_attempt_fetched:
  "fetched (snd (makeAuthenticatedRequest envSignature ''/fapi/v1/order'' ''POST'' True
          (Some (orderCacheKey (connect (newClient someCredentials)) ''BTCUSDT'' BUY MARKET 1 None))
          30000 False (connect (newClient someCredentials))))
   = [(''POST'', ''/fapi/v1/order'')]"
  by code_simp

lemma signature_nonTransient:
  "nonTransient ''Network error while POST /fapi/v1/order: Request failed: 400 Bad Request - {\"code\":-1022,\"msg\":\"Signature for this request is not valid.\"}''"
  by code_simp

lemma signature_userMessage:
  "userMessage (mkError ''Network error while POST /fapi/v1/order: Request failed: 400 Bad Request - {\"code\":-1022,\"msg\":\"Signature for this request is not valid.\"}'')
   = ''Authentication error. Please check your API credentials.''"
  by code_simp

lemma nonTransient_error_is_not_retried_example:
  "fst (placeOrder Inr [envSignature, envOk 5000 JNull, envOk 9000 JNull] ''BTCUSDT'' BUY MARKET 1
          None None (newClient someCredentials))
     = Rejected (mkError ''Authentication error. Please check your API credentials.'')
   \<and> fetched (snd (placeOrder Inr [envSignature, envOk 5000 JNull, envOk 9000 JNull] ''BTCUSDT''
                     BUY MARKET 1 None None (newClient someCredentials)))
     = [(''POST'', ''/fapi/v1/order'')]"
proof -
  let ?s = "newClient someCredentials"
  let ?s1 = "connect ?s"
  let ?r = "makeAuthenticatedRequest envSignature ''/fapi/v1/order'' ''POST'' True
          (Some (orderCacheKey ?s1 ''BTCUSDT'' BUY MARKET 1 None)) 30000 False ?s1"
  let ?e = "mkError ''Network error while POST /fapi/v1/order: Request failed: 400 Bad Request - {\"code\":-1022,\"msg\":\"Signature for this request is not valid.\"}''"
  have h1: "onLine ?s" by (simp add: newClient_def)
  have h2: "''BTCUSDT'' \<noteq> []" by simp
  have h3: "(0::rat) < 1" by simp
  have h4: "MARKET = LIMIT \<longrightarrow> \<not> falsyNumber None \<and> 0 < the (None :: rat option)" by simp
  have h5: "prepareLeverage [envSignature, envOk 5000 JNull, envOk 9000 JNull] ''BTCUSDT'' None
              (if isConnected ?s then ?s else connect ?s)
            = (Some (envSignature # [envOk 5000 JNull, envOk 9000 JNull]), ?s1)"
    by (simp add: prepareLeverage_def falsyNumber_def isConnected_def newClient_def)
  have h6: "?r = (Rejected ?e, snd ?r)"
    using signature_attempt by (metis prod.collapse)
  have h7: "nonTransient (message ?e)"
    using signature_nonTransient by (simp add: mkError_def)
  have f1: "fetched ?s1 = []" by (simp add: newClient_def)
  have h8: "fetched (snd ?r) \<noteq> fetched ?s1"
    using signature_attempt_fetched f1 by simp
  show ?thesis
    using nonTransient_error_is_not_retried [OF h1 h2 h3 h4 h5 h6 h7 h8, of Inr]
          signature_userMessage f1
    by simp
qed

text \<open>
  C8 at two concrete inputs, both of them ban errors that the loop does not
  recognise. On a client under a ban the ban guard rejects the order before any
  request; its message reads \<open>IP ban until\<close> and carries none of the four markers,
  so the loop goes on to its next attempt: with one environment the order is still
  pending, with three it is rejected after the third, and nothing is handed to
  \<open>fetch\<close>. On a new client a 418 response with an empty body sets the ban, its
  message has no \<open>banned\<close> in it either, and the order is tried twice more.
\<close>

theorem ban_error_is_retried:
  "fst (placeOrder Inr [envOk 1000 JNull] ''BTCUSDT'' BUY MARKET 1 None None bannedClient)
     = Pending
   \<and> fst (placeOrder Inr [envOk 1000 JNull, envOk 3000 JNull, envOk 7000 JNull] ''BTCUSDT'' BUY
            MARKET 1 None None bannedClient)
     = Rejected (mkError ''Error: API requests are blocked due to Binance IP ban until a date'')
   \<and> fetched (snd (placeOrder Inr [envOk 1000 JNull, envOk 3000 JNull, envOk 7000 JNull]
                     ''BTCUSDT'' BUY MARKET 1 None None bannedClient)) = []
   \<and> fst (makeAuthenticatedRequest envBareTeapot ''/fapi/v1/order'' ''POST'' True None 30000
            False (newClient someCredentials))
     = Rejected (mkError
         ''Network error while POST /fapi/v1/order: Request failed: 418 I am a teapot - '')
   \<and> fst (placeOrder Inr [envBareTeapot] ''BTCUSDT'' BUY MARKET 1 None None
            (newClient someCredentials))
     = Pending
   \<and> fst (placeOrder Inr [envBareTeapot, envOk 3000 JNull, envOk 7000 JNull] ''BTCUSDT'' BUY
            MARKET 1 None None (newClient someCredentials))
     = Rejected (mkError ''Error: API requests are blocked due to Binance IP ban until a date'')
   \<and> fetched (snd (placeOrder Inr [envBareTeapot, envOk 3000 JNull, envOk 7000 JNull]
                     ''BTCUSDT'' BUY MARKET 1 None None (newClient someCredentials)))
     = [(''POST'', ''/fapi/v1/order'')]"
  by code_simp

subsection \<open>Disconnecting\<close>

text \<open>
  C9, as the code has it. \<open>disconnect\<close> drops the socket and clears the ping
  interval and the interval of the listen key, so the refresh of the listen key does
  not run afterwards. It leaves the callbacks that \<open>handleReconnect\<close> has handed to
  \<open>setTimeout\<close> where they are, and each of them still opens a new socket when it
  runs.
\<close>

theorem disconnect_clears_intervals_only:
  "ws (disconnect s) = None
   \<and> pingInterval (disconnect s) = False
   \<and> listenKeyInterval (disconnect s) = False
   \<and> listenKeyIntervalFires env env2 (disconnect s) = disconnect s
   \<and> timeouts (disconnect s) = timeouts s
   \<and> (i < length (timeouts s) \<and> \<not> isConnecting s \<longrightarrow>
        ws (fireTimeout i (disconnect s)) = Some CONNECTING
        \<and> isConnecting (fireTimeout i (disconnect s)))"
  by (auto simp: disconnect_def stopPingInterval_def listenKeyIntervalFires_def fireTimeout_def
        connect_def Let_def split: timeout_cb.splits)

theorem disconnect_clears_intervals_only_witness:
  "0 < length (timeouts (onclose droppedClient)) \<and> \<not> isConnecting (onclose droppedClient)
   \<and> listenKeyInterval (disconnect (onclose droppedClient)) = False
   \<and> ws (fireTimeout 0 (disconnect (onclose droppedClient))) = Some CONNECTING"
proof -
  have a: "0 < length (timeouts (onclose droppedClient))" by code_simp
  have b: "\<not> isConnecting (onclose droppedClient)" by code_simp
  show ?thesis
    using disconnect_clears_intervals_only [where s = "onclose droppedClient" and i = 0] a b
    by simp
qed

text \<open>
  C9 as it is stated fails: the socket is closed by the network, \<open>onclose\<close> schedules
  a reconnect, \<open>disconnect\<close> is called, and the scheduled callback still runs
  \<open>connect\<close>, with no call of \<open>connect\<close> from outside.
\<close>

theorem reconnect_fires_after_disconnect:
  "timeouts (onclose droppedClient) = [ReconnectAfter 10000]
   \<and> ws (disconnect (onclose droppedClient)) = None
   \<and> timeouts (disconnect (onclose droppedClient)) = [ReconnectAfter 10000]
   \<and> ws (fireTimeout 0 (disconnect (onclose droppedClient))) = Some CONNECTING
   \<and> isConnecting (fireTimeout 0 (disconnect (onclose droppedClient))) = True"
  by code_simp

subsection \<open>The waiter lists stay empty\<close>

lemma noWaiters_lookup:
  "noWaiters s \<Longrightarrow> map_of (pendingRequests s) k = Some waiters \<Longrightarrow> waiters = []"
  unfolding noWaiters_def list_all_iff by (auto dest: map_of_SomeD)

lemma noWaiters_update:
  assumes "list_all (\<lambda>(k, waiters). waiters = []) al"
  shows "list_all (\<lambda>(k, waiters). waiters = []) (AList.update k [] al)"
  using assms by (induction al) auto

lemma noWaiters_delete:
  assumes "list_all (\<lambda>(k, waiters). waiters = []) al"
  shows "list_all (\<lambda>(k, waiters). waiters = []) (AList.delete k al)"
  using assms by (induction al) auto

lemma noWaiters_cong: "pendingRequests s' = pendingRequests s \<Longrightarrow> noWaiters s' = noWaiters s"
  by (simp add: noWaiters_def)

lemma noWaiters_newClient: "noWaiters (newClient c)"
  by (simp add: noWaiters_def newClient_def)

lemma joinOrMark_noWaiters:
  assumes "noWaiters s"
  shows "fst (joinOrMark k s) = False" and "noWaiters (snd (joinOrMark k s))"
proof -
  have c: "map_of (pendingRequests s) k = None \<or> map_of (pendingRequests s) k = Some []"
    using noWaiters_lookup [OF assms, of k] by (cases "map_of (pendingRequests s) k") auto
  then show "fst (joinOrMark k s) = False"
    by (auto simp: joinOrMark_def)
  from c show "noWaiters (snd (joinOrMark k s))"
    using assms noWaiters_update [of "pendingRequests s" k]
    by (auto simp: joinOrMark_def noWaiters_def)
qed

lemma pending_fresh:
  assumes "noWaiters s"
  shows "(case map_of (pendingRequests s) k of
            Some (w # others) \<Rightarrow> f w others
          | _ \<Rightarrow> g) = g"
proof (cases "map_of (pendingRequests s) k")
  case None
  then show ?thesis by simp
next
  case (Some waiters)
  then have "waiters = []" using noWaiters_lookup [OF assms] by blast
  then show ?thesis using Some by simp
qed

lemma noWaiters_mark:
  assumes "noWaiters s"
  shows "noWaiters (s\<lparr>pendingRequests := AList.update k [] (pendingRequests s)\<rparr>)"
  using assms noWaiters_update [of "pendingRequests s" k] by (simp add: noWaiters_def)

lemma mar_begin_noWaiters:
  assumes "noWaiters s"
  shows "fst (mar_begin now rs key adb s) \<noteq> Waiter w"
    and "noWaiters (snd (mar_begin now rs key adb s))"
proof -
  define r where "r = (if adb then (False, s) else checkIfBanned now s)"
  have pr: "pendingRequests (snd r) = pendingRequests s" unfolding r_def by simp
  obtain b s1 where c: "r = (b, s1)" by (cases r)
  have p: "pendingRequests s1 = pendingRequests s" using pr c by simp
  then have n1: "noWaiters s1" using assms noWaiters_cong by blast
  have m: "mar_begin now rs key adb s =
     (if rs \<and> apiCredentials s = None
      then (Throw (mkError ''API credentials not found''), s)
      else if b then (Throw (banError s1), s1)
      else (case key of
              None \<Rightarrow> (Go, s1)
            | Some k \<Rightarrow>
                if k = [] then (Go, s1)
                else (Go, s1\<lparr>pendingRequests := AList.update k [] (pendingRequests s1)\<rparr>)))"
  proof (cases key)
    case None
    then show ?thesis unfolding mar_begin_def r_def [symmetric] c by (cases b) simp_all
  next
    case (Some k)
    show ?thesis
    proof (cases "k = []")
      case True
      then show ?thesis
        unfolding mar_begin_def r_def [symmetric] c Some by (cases b) simp_all
    next
      case False
      then show ?thesis
        unfolding mar_begin_def r_def [symmetric] c Some
        by (cases b) (simp_all add: pending_fresh [OF n1])
    qed
  qed
  show "fst (mar_begin now rs key adb s) \<noteq> Waiter w"
    unfolding m by (simp split: option.splits)
  show "noWaiters (snd (mar_begin now rs key adb s))"
    unfolding m using assms n1 noWaiters_mark [OF n1] by (simp split: option.splits)
qed

lemma settleAll_noWaiters:
  assumes "noWaiters s"
  shows "noWaiters (settleAll key out s)" and "settled (settleAll key out s) = settled s"
proof -
  have d: "\<And>k. noWaiters (s\<lparr>pendingRequests := AList.delete k (pendingRequests s)\<rparr>)"
    using assms noWaiters_delete unfolding noWaiters_def by simp
  have e: "\<And>k waiters. map_of (pendingRequests s) k = Some waiters \<Longrightarrow> waiters = []"
    using noWaiters_lookup [OF assms] by blast
  show "noWaiters (settleAll key out s)"
  proof (cases key)
    case None
    then show ?thesis using assms by (simp add: settleAll_def)
  next
    case (Some k)
    show ?thesis
    proof (cases "map_of (pendingRequests s) k")
      case None
      then show ?thesis using assms Some by (simp add: settleAll_def)
    next
      case (Some waiters)
      then show ?thesis using assms \<open>key = Some k\<close> e [OF Some] d [of k]
        by (simp add: settleAll_def noWaiters_def)
    qed
  qed
  show "settled (settleAll key out s) = settled s"
  proof (cases key)
    case None
    then show ?thesis by (simp add: settleAll_def)
  next
    case (Some k)
    show ?thesis
    proof (cases "map_of (pendingRequests s) k")
      case None
      then show ?thesis using Some by (simp add: settleAll_def)
    next
      case (Some waiters)
      then show ?thesis using \<open>key = Some k\<close> e [OF Some]
        by (simp add: settleAll_def)
    qed
  qed
qed

lemma noWaiters_frames [simp]:
  "noWaiters (snd (checkIfBanned now s)) = noWaiters s"
  "noWaiters (snd (detectBanFromError now error s)) = noWaiters s"
  "noWaiters (scanBanBody now parsed s) = noWaiters s"
  "noWaiters (snd (waitForRateLimit now fires s)) = noWaiters s"
  "noWaiters (mar_send verb endpoint s) = noWaiters s"
  "noWaiters (s\<lparr>accountInfoCache := v\<rparr>) = noWaiters s"
  by (simp_all add: noWaiters_def mar_send_def)

lemma mar_failed_noWaiters:
  assumes "noWaiters s"
  shows "noWaiters (snd (mar_failed now verb endpoint key error s))"
proof -
  have "noWaiters (snd (detectBanFromError now error s))" using assms by simp
  from settleAll_noWaiters(1) [OF this] show ?thesis by (simp add: mar_failed_def Let_def)
qed

lemma mar_complete_noWaiters:
  assumes "noWaiters s"
  shows "noWaiters (snd (mar_complete now verb endpoint key r s))"
proof (cases r)
  case (FetchOk body)
  then show ?thesis
    using settleAll_noWaiters(1) [OF assms] by (simp add: mar_complete_def Let_def)
next
  case (FetchNotOk status statusText errorText parsed)
  have "noWaiters (if status = 418 \<or> status = 429 then scanBanBody now parsed s else s)"
    using assms by simp
  from mar_failed_noWaiters [OF this] show ?thesis
    using FetchNotOk by (simp add: mar_complete_def)
next
  case (FetchThrew fetchError)
  then show ?thesis
    using mar_failed_noWaiters [OF assms] by (simp add: mar_complete_def)
qed

lemma makeAuthenticatedRequest_noWaiters:
  assumes "noWaiters s"
  shows "noWaiters (snd (makeAuthenticatedRequest env endpoint verb rs key ttl adb s))"
proof -
  obtain b s1 where c: "mar_begin (startedAt env) rs key adb s = (b, s1)"
    by (cases "mar_begin (startedAt env) rs key adb s")
  have n1: "noWaiters s1"
    using mar_begin_noWaiters(2) [OF assms, of "startedAt env" rs key adb] c by simp
  obtain w s2 where d: "waitForRateLimit (startedAt env) (timerFires env) s1 = (w, s2)"
    by (cases "waitForRateLimit (startedAt env) (timerFires env) s1")
  have n2: "noWaiters s2"
    using noWaiters_frames(4) [of "startedAt env" "timerFires env" s1] n1 d by simp
  have n3: "noWaiters (mar_send verb endpoint s2)" using n2 by simp
  show ?thesis
  proof (cases b)
    case (Throw e)
    then show ?thesis using n1 by (simp add: makeAuthenticatedRequest_def c)
  next
    case (Waiter x)
    then show ?thesis using n1 by (simp add: makeAuthenticatedRequest_def c)
  next
    case Go
    show ?thesis
    proof (cases w)
      case (Resolved u)
      then show ?thesis using Go mar_complete_noWaiters [OF n3]
        by (simp add: makeAuthenticatedRequest_def c d)
    next
      case (Rejected e)
      then show ?thesis using Go settleAll_noWaiters(1) [OF n2]
        by (simp add: makeAuthenticatedRequest_def c d)
    next
      case Pending
      then show ?thesis using Go n2 by (simp add: makeAuthenticatedRequest_def c d)
    qed
  qed
qed

lemma accountInfoFailed_noWaiters:
  assumes "noWaiters s"
  shows "noWaiters (snd (accountInfoFailed now error s))"
proof -
  obtain b s1 where k: "checkIfBanned now (snd (detectBanFromError now error s)) = (b, s1)"
    by (cases "checkIfBanned now (snd (detectBanFromError now error s))")
  have n2: "noWaiters s1"
    using noWaiters_frames(1) [of now "snd (detectBanFromError now error s)"] k assms by simp
  show ?thesis
  proof (cases "accountInfoCache s1")
    case None
    then show ?thesis using n2 by (simp add: accountInfoFailed_def k)
  next
    case (Some entry)
    obtain data timestamp where e: "entry = (data, timestamp)" by (cases entry)
    show ?thesis using n2 Some e by (simp add: accountInfoFailed_def k)
  qed
qed

lemma fetchAccountInfo_noWaiters:
  assumes "noWaiters s"
  shows "noWaiters (snd (fetchAccountInfo env now s))"
proof -
  obtain j s1 where jm: "joinOrMark ''account_info'' s = (j, s1)"
    by (cases "joinOrMark ''account_info'' s")
  have n1: "noWaiters s1"
    using joinOrMark_noWaiters(2) [OF assms, of "''account_info''"] jm by simp
  obtain out s2 where m: "makeAuthenticatedRequest env ''/fapi/v2/account'' ''GET'' True
                            (Some ''account_info'') 60000 False s1 = (out, s2)"
    by (cases "makeAuthenticatedRequest env ''/fapi/v2/account'' ''GET'' True
                            (Some ''account_info'') 60000 False s1")
  have n2: "noWaiters s2"
    using makeAuthenticatedRequest_noWaiters [OF n1, of env "''/fapi/v2/account''" "''GET''" True
            "Some ''account_info''" 60000 False] m by simp
  show ?thesis
  proof (cases j)
    case True
    then show ?thesis using n1 by (simp add: fetchAccountInfo_def jm)
  next
    case False
    show ?thesis
    proof (cases out)
      case (Resolved data)
      then show ?thesis using False n2 by (simp add: fetchAccountInfo_def jm m)
    next
      case (Rejected error)
      then show ?thesis using False accountInfoFailed_noWaiters [OF n2]
        by (simp add: fetchAccountInfo_def jm m)
    next
      case Pending
      then show ?thesis using False n2 by (simp add: fetchAccountInfo_def jm m)
    qed
  qed
qed

lemma getAccountInfo_noWaiters:
  assumes "noWaiters s"
  shows "noWaiters (snd (getAccountInfo env s))"
proof -
  obtain b s1 where c: "checkIfBanned (startedAt env) s = (b, s1)"
    by (cases "checkIfBanned (startedAt env) s")
  have n1: "noWaiters s1"
    using noWaiters_frames(1) [of "startedAt env" s] c assms by simp
  show ?thesis
  proof (cases "case accountInfoCache s of
                 Some (data, timestamp) \<Rightarrow>
                   if startedAt env - timestamp < 60000 then Some data else None
               | None \<Rightarrow> None")
    case (Some data)
    then show ?thesis using assms by (simp add: getAccountInfo_def Let_def)
  next
    case fresh: None
    show ?thesis
    proof (cases b)
      case True
      show ?thesis
      proof (cases "accountInfoCache s1")
        case None
        then show ?thesis using True fresh n1 c
          by (simp add: getAccountInfo_def Let_def)
      next
        case (Some entry)
        obtain data timestamp where e: "entry = (data, timestamp)" by (cases entry)
        show ?thesis using True fresh n1 c Some e
          by (simp add: getAccountInfo_def Let_def)
      qed
    next
      case False
      then show ?thesis using fresh c fetchAccountInfo_noWaiters [OF n1]
        by (simp add: getAccountInfo_def Let_def)
    qed
  qed
qed

lemma accountInfoWithRetry_noWaiters:
  assumes "noWaiters s"
  shows "noWaiters (snd (fst (accountInfoWithRetry env env2 s)))"
proof -
  obtain out s1 where g: "getAccountInfo env s = (out, s1)" by (cases "getAccountInfo env s")
  have n1: "noWaiters s1" using getAccountInfo_noWaiters [OF assms, of env] g by simp
  have n2: "noWaiters (snd (getAccountInfo env2 s1))" using getAccountInfo_noWaiters [OF n1] .
  show ?thesis using n1 n2
    by (cases out) (simp_all add: accountInfoWithRetry_def g)
qed

lemma getOpenPositions_never_rejects:
  "fst (getOpenPositions toPositions env env2 s) \<noteq> Rejected e"
proof -
  obtain w s1 where j: "joinOrMark ''open_positions'' s = (w, s1)"
    by (cases "joinOrMark ''open_positions'' s")
  obtain out s2 now where a: "accountInfoWithRetry env env2 s1 = ((out, s2), now)"
    by (cases "accountInfoWithRetry env env2 s1") auto
  show ?thesis
  proof (cases w)
    case True
    then show ?thesis by (simp add: getOpenPositions_def j)
  next
    case False
    show ?thesis
    proof (cases out)
      case (Resolved accountInfo)
      show ?thesis
      proof (cases "positionsOf accountInfo")
        case None
        then show ?thesis using False Resolved by (simp add: getOpenPositions_def j a)
      next
        case (Some p)
        then show ?thesis using False Resolved
          by (cases "toPositions p") (simp_all add: getOpenPositions_def j a positionsFailed_def)
      qed
    next
      case (Rejected error)
      then show ?thesis using False by (simp add: getOpenPositions_def j a positionsFailed_def)
    next
      case Pending
      then show ?thesis using False by (simp add: getOpenPositions_def j a)
    qed
  qed
qed

lemma positionsFailed_noWaiters:
  assumes "noWaiters s"
  shows "noWaiters (snd (positionsFailed now error s))"
proof -
  have "noWaiters (snd (detectBanFromError now error s))" using assms by simp
  from settleAll_noWaiters(1) [OF this] show ?thesis by (simp add: positionsFailed_def)
qed

lemma getOpenPositions_noWaiters:
  assumes "noWaiters s"
  shows "noWaiters (snd (getOpenPositions toPositions env env2 s))"
proof -
  obtain w s1 where j: "joinOrMark ''open_positions'' s = (w, s1)"
    by (cases "joinOrMark ''open_positions'' s")
  have n1: "noWaiters s1"
    using joinOrMark_noWaiters(2) [OF assms, of "''open_positions''"] j by simp
  obtain out s2 now where a: "accountInfoWithRetry env env2 s1 = ((out, s2), now)"
    by (cases "accountInfoWithRetry env env2 s1") auto
  have n2: "noWaiters s2" using accountInfoWithRetry_noWaiters [OF n1, of env env2] a by simp
  show ?thesis
  proof (cases w)
    case True
    then show ?thesis using n1 by (simp add: getOpenPositions_def j)
  next
    case False
    show ?thesis
    proof (cases out)
      case (Resolved accountInfo)
      show ?thesis
      proof (cases "positionsOf accountInfo")
        case None
        then show ?thesis using False Resolved n2 by (simp add: getOpenPositions_def j a)
      next
        case (Some p)
        then show ?thesis
          using False Resolved positionsFailed_noWaiters [OF n2] settleAll_noWaiters(1) [OF n2]
          by (cases "toPositions p") (simp_all add: getOpenPositions_def j a)
      qed
    next
      case (Rejected error)
      then show ?thesis using False positionsFailed_noWaiters [OF n2]
        by (simp add: getOpenPositions_def j a)
    next
      case Pending
      then show ?thesis using False n2 by (simp add: getOpenPositions_def j a)
    qed
  qed
qed

lemma historyFailed_noWaiters:
  assumes "noWaiters s"
  shows "noWaiters (snd (historyFailed now error cachedEntry s))"
proof (cases cachedEntry)
  case None
  then show ?thesis using assms by (simp add: historyFailed_def Let_def)
next
  case (Some entry)
  obtain data timestamp where e: "entry = (data, timestamp)" by (cases entry)
  show ?thesis using assms Some e by (simp add: historyFailed_def Let_def)
qed

lemma noWaiters_orderHistoryCache [simp]:
  "noWaiters (s\<lparr>orderHistoryCache := v\<rparr>) = noWaiters s"
  by (simp add: noWaiters_def)

lemma getOrderHistory_noWaiters:
  assumes "noWaiters s"
  shows "noWaiters (snd (getOrderHistory toTrades env symbol s))"
proof -
  define cachedEntry where
    "cachedEntry = map_of (orderHistoryCache s) (''orderHistory_'' @ symbolOrAll symbol)"
  obtain b s1 where c: "checkIfBanned (startedAt env) s = (b, s1)"
    by (cases "checkIfBanned (startedAt env) s")
  have n1: "noWaiters s1"
    using noWaiters_frames(1) [of "startedAt env" s] c assms by simp
  obtain out s2 where m: "makeAuthenticatedRequest env ''/fapi/v1/allOrders'' ''GET'' True
                            (Some (''orders_'' @ symbolOrAll symbol)) 60000 False s1 = (out, s2)"
    by (cases "makeAuthenticatedRequest env ''/fapi/v1/allOrders'' ''GET'' True
                            (Some (''orders_'' @ symbolOrAll symbol)) 60000 False s1")
  have n2: "noWaiters s2"
    using makeAuthenticatedRequest_noWaiters [OF n1, of env "''/fapi/v1/allOrders''" "''GET''"
            True "Some (''orders_'' @ symbolOrAll symbol)" 60000 False] m by simp
  show ?thesis
  proof (cases "case cachedEntry of
                 Some (data, timestamp) \<Rightarrow>
                   if startedAt env - timestamp < 60000 then Some data else None
               | None \<Rightarrow> None")
    case (Some data)
    then show ?thesis using assms
      by (simp add: getOrderHistory_def Let_def cachedEntry_def)
  next
    case fresh: None
    show ?thesis
    proof (cases b)
      case True
      show ?thesis
      proof (cases cachedEntry)
        case None
        then show ?thesis using True fresh n1 c
          by (simp add: getOrderHistory_def Let_def cachedEntry_def)
      next
        case (Some entry)
        obtain data timestamp where e: "entry = (data, timestamp)" by (cases entry)
        show ?thesis using True fresh n1 c Some e
          by (simp add: getOrderHistory_def Let_def cachedEntry_def)
      qed
    next
      case False
      show ?thesis
      proof (cases out)
        case (Resolved orders)
        then show ?thesis
          using False fresh c m n2 historyFailed_noWaiters [OF n2]
          by (cases "toTrades orders")
             (simp_all add: getOrderHistory_def Let_def cachedEntry_def)
      next
        case (Rejected error)
        then show ?thesis
          using False fresh c m historyFailed_noWaiters [OF n2]
          by (simp add: getOrderHistory_def Let_def cachedEntry_def)
      next
        case Pending
        then show ?thesis
          using False fresh c m n2
          by (simp add: getOrderHistory_def Let_def cachedEntry_def)
      qed
    qed
  qed
qed

lemma orderAttempts_noWaiters:
  "noWaiters s \<Longrightarrow> noWaiters (snd (orderAttempts toTrade envs attempts key s))"
proof (induction envs arbitrary: attempts s)
  case Nil
  then show ?case by simp
next
  case (Cons env envs)
  obtain out s1 where m: "makeAuthenticatedRequest env ''/fapi/v1/order'' ''POST'' True (Some key)
                             30000 False s = (out, s1)"
    by (cases "makeAuthenticatedRequest env ''/fapi/v1/order'' ''POST'' True (Some key)
                             30000 False s")
  have n1: "noWaiters s1"
    using makeAuthenticatedRequest_noWaiters [OF Cons.prems, of env "''/fapi/v1/order''"
            "''POST''" True "Some key" 30000 False] m by simp
  have ih: "noWaiters (snd (orderAttempts toTrade envs (Suc attempts) key s1))"
    using Cons.IH [OF n1] .
  show ?case
  proof (cases "attempts < maxAttempts")
    case False
    then show ?thesis using Cons.prems by simp
  next
    case True
    show ?thesis
    proof (cases out)
      case (Resolved data)
      then show ?thesis using True m n1 ih
        by (cases "toTrade data") simp_all
    next
      case (Rejected error)
      then show ?thesis using True m n1 ih by simp
    next
      case Pending
      then show ?thesis using True m n1 by simp
    qed
  qed
qed

lemma noWaiters_connect [simp]: "noWaiters (connect s) = noWaiters s"
  by (simp add: noWaiters_def connect_def)

lemma prepareLeverage_noWaiters:
  assumes "noWaiters s"
  shows "noWaiters (snd (prepareLeverage envs symbol leverage s))"
proof (cases "falsyNumber leverage")
  case True
  then show ?thesis using assms by (simp add: prepareLeverage_def)
next
  case False
  show ?thesis
  proof (cases envs)
    case Nil
    then show ?thesis using False assms by (simp add: prepareLeverage_def)
  next
    case (Cons env envs1)
    obtain out s1 where m: "setLeverage env symbol (the leverage) s = (out, s1)"
      by (cases "setLeverage env symbol (the leverage) s")
    have "noWaiters s1"
      using makeAuthenticatedRequest_noWaiters [OF assms] m
      unfolding setLeverage_def by (metis snd_conv)
    then show ?thesis using False Cons m
      by (cases out) (simp_all add: prepareLeverage_def)
  qed
qed

lemma placeOrder_noWaiters:
  assumes "noWaiters s"
  shows "noWaiters (snd (placeOrder toTrade envs symbol sd ty quantity price leverage s))"
proof -
  have r: "\<And>x. snd (rethrow x) = snd x"
    by (simp add: rethrow_def split: prod.splits promise.splits)
  define s1 where "s1 = (if \<not> isConnected s then connect s else s)"
  have n1: "noWaiters s1" using assms by (simp add: s1_def)
  obtain envs1 s2 where p: "prepareLeverage envs symbol leverage s1 = (envs1, s2)"
    by (cases "prepareLeverage envs symbol leverage s1")
  have n2: "noWaiters s2" using prepareLeverage_noWaiters [OF n1, of envs symbol leverage] p by simp
  have n3: "\<And>es. noWaiters (snd (orderAttempts toTrade es 0
                      (orderCacheKey s2 symbol sd ty quantity price) s2))"
    using orderAttempts_noWaiters [OF n2] .
  show ?thesis
    unfolding r placeOrder_def Let_def s1_def [symmetric]
    using assms n1 n2 n3 p by (cases envs1) simp_all
qed

lemma getListenKey_noWaiters:
  assumes "noWaiters s"
  shows "noWaiters (snd (getListenKey env s))"
proof -
  obtain b s1 where c: "checkIfBanned (startedAt env) s = (b, s1)"
    by (cases "checkIfBanned (startedAt env) s")
  have n1: "noWaiters s1"
    using noWaiters_frames(1) [of "startedAt env" s] c assms by simp
  obtain out s2 where m: "makeAuthenticatedRequest env ''/fapi/v1/listenKey'' ''POST'' False
                       (Some ''listenKey'') 30000 True s1 = (out, s2)"
    by (cases "makeAuthenticatedRequest env ''/fapi/v1/listenKey'' ''POST'' False
                       (Some ''listenKey'') 30000 True s1")
  have n2: "noWaiters s2"
    using makeAuthenticatedRequest_noWaiters [OF n1, of env "''/fapi/v1/listenKey''" "''POST''"
            False "Some ''listenKey''" 30000 True] m by simp
  have n3: "\<And>v. noWaiters (startListenKeyRefresh (s2\<lparr>listenKey := v\<rparr>))"
    using n2 by (simp add: noWaiters_def startListenKeyRefresh_def)
  show ?thesis
  proof (cases b)
    case True
    then show ?thesis using n1 by (simp add: getListenKey_def c)
  next
    case False
    show ?thesis
    proof (cases "listenKey s1")
      case (Some k)
      then show ?thesis using False n1 by (simp add: getListenKey_def c)
    next
      case None
      then show ?thesis using False n2 n3
        by (cases out) (simp_all add: getListenKey_def c m)
    qed
  qed
qed

lemma refreshListenKey_noWaiters:
  assumes "noWaiters s"
  shows "noWaiters (snd (getListenKey env s))"
    and "noWaiters (listenKeyIntervalFires env env2 s)"
proof -
  show "noWaiters (snd (getListenKey env s))" using getListenKey_noWaiters [OF assms] .
  obtain out s1 where m: "makeAuthenticatedRequest env ''/fapi/v1/listenKey'' ''PUT'' False
                  (Some ''refreshListenKey'') 30000 False s = (out, s1)"
    by (cases "makeAuthenticatedRequest env ''/fapi/v1/listenKey'' ''PUT'' False
                  (Some ''refreshListenKey'') 30000 False s")
  have n1: "noWaiters s1"
    using makeAuthenticatedRequest_noWaiters [OF assms, of env "''/fapi/v1/listenKey''" "''PUT''"
            False "Some ''refreshListenKey''" 30000 False] m by simp
  have "noWaiters (s1\<lparr>listenKey := None\<rparr>)" using n1 by (simp add: noWaiters_def)
  from getListenKey_noWaiters [OF this]
  have n2: "noWaiters (snd (getListenKey env2 (s1\<lparr>listenKey := None\<rparr>)))" .
  have "noWaiters (refreshListenKey env env2 s)"
  proof (cases "listenKey s")
    case None
    then show ?thesis using assms by (simp add: refreshListenKey_def)
  next
    case (Some k)
    then show ?thesis using n1 n2 by (cases out) (simp_all add: refreshListenKey_def m)
  qed
  then show "noWaiters (listenKeyIntervalFires env env2 s)"
    using assms by (simp add: listenKeyIntervalFires_def)
qed

lemma stream_noWaiters [simp]:
  "noWaiters (disconnect s) = noWaiters s"
  "noWaiters (onclose s) = noWaiters s"
  "noWaiters (fireTimeout i s) = noWaiters s"
  "noWaiters (subscribe symbol l now s) = noWaiters s"
  "noWaiters (unsubscribe symbol l now s) = noWaiters s"
  by (simp_all add: noWaiters_def disconnect_def stopPingInterval_def onclose_def
        handleReconnect_def fireTimeout_def connect_def subscribe_def unsubscribe_def
        sendSubscription_def sendUnsubscription_def Let_def
      split: timeout_cb.splits option.splits)

lemma klines_noWaiters [simp]:
  "noWaiters (subscribeKlines symbol interval l now s) = noWaiters s"
  "noWaiters (unsubscribeKlines symbol interval l now s) = noWaiters s"
  by (simp_all add: noWaiters_def connect_def subscribeKlines_def unsubscribeKlines_def
        sendSubscription_def sendUnsubscription_def Let_def
      split: option.splits)

lemma depth_noWaiters [simp]:
  "noWaiters (subscribeDepth symbol l now s) = noWaiters s"
  "noWaiters (unsubscribeDepth symbol l now s) = noWaiters s"
  by (simp_all add: noWaiters_def connect_def subscribeDepth_def unsubscribeDepth_def
        sendSubscription_def sendUnsubscription_def Let_def
      split: option.splits)

lemma account_noWaiters [simp]:
  "noWaiters (subscribeAccount l now s) = noWaiters s"
  "noWaiters (unsubscribeAccount l now s) = noWaiters s"
  by (simp_all add: noWaiters_def connect_def subscribeAccount_def unsubscribeAccount_def
        sendSubscription_def sendUnsubscription_def Let_def)

text \<open>
  Whatever sequence of calls, events and parts of calls has run on a new client, no
  waiter list holds a waiter, and the start of a request never registers one.
\<close>

lemma noWaiters_ws [simp]: "noWaiters (s\<lparr>ws := v\<rparr>) = noWaiters s"
  by (simp add: noWaiters_def)

lemma noWaiters_getBanStatus [simp]: "noWaiters (snd (getBanStatus now s)) = noWaiters s"
  by (simp add: getBanStatus_def Let_def)

lemma perform_noWaiters:
  assumes "noWaiters s"
  shows "noWaiters (perform a s)"
proof (cases a)
  case (BeginRequest now rs key adb)
  then show ?thesis using mar_begin_noWaiters(2) [OF assms] by simp
next
  case (CompleteRequest now verb endpoint key r)
  then show ?thesis using mar_complete_noWaiters [OF assms] by simp
next
  case (RejectWaiters key error)
  then show ?thesis using settleAll_noWaiters(1) [OF assms] by simp
next
  case (JoinOrMark k)
  then show ?thesis using joinOrMark_noWaiters(2) [OF assms] by simp
next
  case (AccountInfoFails now error)
  then show ?thesis using accountInfoFailed_noWaiters [OF assms] by simp
next
  case (PositionsFail now error)
  then show ?thesis using positionsFailed_noWaiters [OF assms] by simp
next
  case (HistoryFails now error cachedEntry)
  then show ?thesis using historyFailed_noWaiters [OF assms] by simp
next
  case (Request env endpoint verb rs key ttl adb)
  then show ?thesis using makeAuthenticatedRequest_noWaiters [OF assms] by simp
next
  case (GetAccountInfo env)
  then show ?thesis using getAccountInfo_noWaiters [OF assms] by simp
next
  case (GetOpenPositions toPositions env env2)
  then show ?thesis using getOpenPositions_noWaiters [OF assms] by simp
next
  case (GetOrderHistory toTrades env symbol)
  then show ?thesis using getOrderHistory_noWaiters [OF assms] by simp
next
  case (PlaceOrder toTrade envs symbol sd ty quantity price leverage)
  then show ?thesis using placeOrder_noWaiters [OF assms] by simp
next
  case (GetListenKey env)
  then show ?thesis using getListenKey_noWaiters [OF assms] by simp
next
  case (ListenKeyTick env env2)
  then show ?thesis using refreshListenKey_noWaiters(2) [OF assms] by simp
qed (use assms in simp_all)

lemma performAll_noWaiters: "noWaiters s \<Longrightarrow> noWaiters (performAll actions s)"
  unfolding performAll_def
  by (induction actions arbitrary: s) (simp_all add: perform_noWaiters)

lemma reachable_noWaiters: "noWaiters (performAll actions (newClient credentials))"
  using performAll_noWaiters [OF noWaiters_newClient] .

lemma never_a_waiter:
  "fst (mar_begin now rs key adb (performAll actions (newClient credentials))) \<noteq> Waiter w"
  using mar_begin_noWaiters(1) [OF reachable_noWaiters] .

subsection \<open>Open positions\<close>

text \<open>
  C10. In an object where no caller waits on another call, which is every object the
  methods can reach (\<open>reachable_noWaiters\<close>), a call of \<open>getOpenPositions\<close> whose account information fails
  with an error (after the one retry that a rate limit error gets) resolves with the
  empty list, and no promise is rejected through the waiter list.
\<close>

theorem getOpenPositions_resolves_empty_on_failure:
  assumes "noWaiters s"
    and "fst (accountInfoWithRetry env env2 (snd (joinOrMark ''open_positions'' s)))
           = (Rejected error, s2)"
  shows "fst (getOpenPositions toPositions env env2 s) = Resolved (JArr [])
         \<and> settled (snd (getOpenPositions toPositions env env2 s)) = settled s2"
proof -
  obtain s1 where j: "joinOrMark ''open_positions'' s = (False, s1)"
    using joinOrMark_noWaiters(1) [OF assms(1), of "''open_positions''"]
    by (cases "joinOrMark ''open_positions'' s") auto
  obtain now where a: "accountInfoWithRetry env env2 s1 = ((Rejected error, s2), now)"
    using assms(2) j by (cases "accountInfoWithRetry env env2 s1") auto
  have g: "getOpenPositions toPositions env env2 s = positionsFailed now error s2"
    by (simp add: getOpenPositions_def j a)
  have n1: "noWaiters s1"
    using joinOrMark_noWaiters(2) [OF assms(1), of "''open_positions''"] j by simp
  have "noWaiters (snd (fst (accountInfoWithRetry env env2 s1)))"
    using accountInfoWithRetry_noWaiters [OF n1] .
  then have n2: "noWaiters s2" using a by simp
  have n3: "noWaiters (snd (detectBanFromError now error s2))" using n2 by simp
  have st: "settled (snd (detectBanFromError now error s2)) = settled s2"
    by (simp add: detectBanFromError_def setBanned_def Let_def split: option.splits)
  have "settled (settleAll (Some ''open_positions'') (Rejected error)
                   (snd (detectBanFromError now error s2))) = settled s2"
    using settleAll_noWaiters(2) [OF n3, of "Some ''open_positions''" "Rejected error"] st
    by simp
  then show ?thesis
    unfolding g positionsFailed_def by simp
qed

lemma down_account:
  "fst (fst (accountInfoWithRetry (envDown 1000) (envDown 5000)
         (snd (joinOrMark ''open_positions'' (newClient someCredentials)))))
   = Rejected (mkError ''Network error while GET /fapi/v2/account: Failed to fetch'')"
  by code_simp

theorem getOpenPositions_resolves_empty_on_failure_witness:
  "noWaiters (newClient someCredentials)
   \<and> fst (fst (accountInfoWithRetry (envDown 1000) (envDown 5000)
         (snd (joinOrMark ''open_positions'' (newClient someCredentials)))))
      = Rejected (mkError ''Network error while GET /fapi/v2/account: Failed to fetch'')
   \<and> fst (getOpenPositions Inr (envDown 1000) (envDown 5000) (newClient someCredentials))
      = Resolved (JArr [])"
proof -
  let ?a = "accountInfoWithRetry (envDown 1000) (envDown 5000)
         (snd (joinOrMark ''open_positions'' (newClient someCredentials)))"
  have h: "fst ?a = (Rejected (mkError ''Network error while GET /fapi/v2/account: Failed to fetch''),
                     snd (fst ?a))"
    using down_account by (metis prod.collapse)
  show ?thesis
    using getOpenPositions_resolves_empty_on_failure [OF noWaiters_newClient h, of Inr]
          noWaiters_newClient down_account
    by simp
qed


end
